theory Spec2Isabelle
  imports Complex_Main "HOL-Library.Multiset"
begin

section \<open>Strings and numbers of the host language\<close>

text \<open>
  A TypeScript string is a sequence of 16-bit code units. The code compares code units
  with \<open>0xFEFF\<close>, trims Unicode white space and carries Telugu names, so a string is
  modelled as the list of its code units, each a natural number. \<open>str\<close> embeds an
  ASCII literal of the source.
\<close>

type_synonym jsstring = "nat list"

definition str :: "string \<Rightarrow> jsstring" where
  "str = map of_char"

text \<open>
  The numbers that reach a voter record are page indices, \<open>Date.now()\<close> and results of
  \<open>parseInt\<close>: integers, or \<open>NaN\<close> when \<open>parseInt\<close> finds no digit.
\<close>

datatype jsnum = Num int | NaN

section \<open>The data model (types.ts)\<close>

text \<open>
  \<open>photoBase64\<close>, \<open>originalPage\<close> and \<open>timestamp\<close> are optional fields
  (\<open>None\<close> is \<open>undefined\<close>); \<open>votedParty\<close> is \<open>string | null\<close>
  (\<open>None\<close> is \<open>null\<close>).
\<close>

record voter =
  sl_no :: jsstring
  epic_no :: jsstring
  name_en :: jsstring
  name_te :: jsstring
  relative_name :: jsstring
  house_no :: jsstring
  age :: jsstring
  gender :: jsstring
  assembly_name :: jsstring
  parliament_name :: jsstring
  polling_station_no :: jsstring
  photoBase64 :: "jsstring option"
  originalPage :: "jsnum option"
  isVoted :: bool
  votedParty :: "jsstring option"
  timestamp :: "jsnum option"

section \<open>Poll marking (App.tsx, updateVoter)\<close>

text \<open>
  \<open>setVoters(prev => prev.map(v => v.epic_no === updatedVoter.epic_no ? updatedVoter : v))\<close>:
  the stored collection is passed in and the new one returned.
\<close>

definition updateVoter :: "voter \<Rightarrow> voter list \<Rightarrow> voter list" where
  "updateVoter updatedVoter prevVoters =
     map (\<lambda>v. if epic_no v = epic_no updatedVoter then updatedVoter else v) prevVoters"

text \<open>A record as extraction leaves it: only the id is given, poll state unset.\<close>

definition blankVoter :: "jsstring \<Rightarrow> voter" where
  "blankVoter e =
     \<lparr>sl_no = [], epic_no = e, name_en = [], name_te = [], relative_name = [],
      house_no = [], age = [], gender = [], assembly_name = [], parliament_name = [],
      polling_station_no = [], photoBase64 = None, originalPage = None,
      isVoted = False, votedParty = None, timestamp = None\<rparr>"

section \<open>Regular expressions of the host language\<close>

text \<open>
  The patterns of the source use literals, character classes, anchors, sequence,
  alternation, greedy and lazy repetition and capture groups; no back-references and no
  look-ahead. For these a backtracking matcher is determined by the list of its possible
  results in the order in which backtracking tries them: \<open>ends n r (c, s)\<close> lists, for
  the regex \<open>r\<close> started on the remaining input \<open>s\<close> with captures \<open>c\<close>, the
  (captures, remaining input) pairs it can stop at, best first. \<open>n\<close> is the length of
  the whole input, which \<open>^\<close> needs. An iteration of a repetition that consumes nothing
  is rejected, as in the language definition.
\<close>

datatype regex =
    Atom "nat \<Rightarrow> bool"
  | Eps
  | Bol
  | Eol
  | Seq regex regex
  | Alt regex regex
  | Star regex
  | Lazy regex
  | Group nat regex

type_synonym caps = "nat \<Rightarrow> jsstring option"
type_synonym mstate = "caps \<times> jsstring"

function ends :: "nat \<Rightarrow> regex \<Rightarrow> mstate \<Rightarrow> mstate list" where
  "ends n (Atom P) st =
     (case snd st of [] \<Rightarrow> [] | a # t \<Rightarrow> if P a then [(fst st, t)] else [])"
| "ends n Eps st = [st]"
| "ends n Bol st = (if length (snd st) = n then [st] else [])"
| "ends n Eol st = (if snd st = [] then [st] else [])"
| "ends n (Seq r1 r2) st = concat (map (ends n r2) (ends n r1 st))"
| "ends n (Alt r1 r2) st = ends n r1 st @ ends n r2 st"
| "ends n (Star r) st =
     concat (map (\<lambda>st'. if length (snd st') < length (snd st)
                          then ends n (Star r) st' else [])
                 (ends n r st)) @ [st]"
| "ends n (Lazy r) st =
     st # concat (map (\<lambda>st'. if length (snd st') < length (snd st)
                               then ends n (Lazy r) st' else [])
                      (ends n r st))"
| "ends n (Group k r) st =
     map (\<lambda>st'. ((fst st')(k \<mapsto> take (length (snd st) - length (snd st')) (snd st)),
                 snd st'))
         (ends n r st)"
  by pat_completeness auto
termination
  by (relation "measures [\<lambda>(n, r, st). size r, \<lambda>(n, r, st). length (snd st)]") auto

text \<open>
  \<open>String.prototype.match\<close> with a regex without the \<open>g\<close> flag: the first start
  position, from the left, at which the regex matches, and there the first result of
  backtracking. The result is the index, the matched text (element 0 of the source's match
  array) and the captures (elements 1, 2, ...); \<open>None\<close> is \<open>null\<close>.
\<close>

type_synonym jsmatchres = "nat \<times> jsstring \<times> caps"

fun search :: "nat \<Rightarrow> regex \<Rightarrow> jsstring \<Rightarrow> jsmatchres option" where
  "search n r s =
     (case ends n r (Map.empty, s) of
        st # _ \<Rightarrow> Some (n - length s, take (length s - length (snd st)) s, fst st)
      | [] \<Rightarrow> (case s of [] \<Rightarrow> None | _ # t \<Rightarrow> search n r t))"

definition jsmatch :: "regex \<Rightarrow> jsstring \<Rightarrow> jsmatchres option" where
  "jsmatch r s = search (length s) r s"

definition test :: "regex \<Rightarrow> jsstring \<Rightarrow> bool" where
  "test r s = (jsmatch r s \<noteq> None)"

subsection \<open>Character classes\<close>

definition upperAZ :: "nat \<Rightarrow> bool" where
  "upperAZ c = (65 \<le> c \<and> c \<le> 90)"

definition lowerAZ :: "nat \<Rightarrow> bool" where
  "lowerAZ c = (97 \<le> c \<and> c \<le> 122)"

definition digit09 :: "nat \<Rightarrow> bool" where
  "digit09 c = (48 \<le> c \<and> c \<le> 57)"

text \<open>The line terminators, which \<open>.\<close> does not match.\<close>

definition isLineTerminator :: "nat \<Rightarrow> bool" where
  "isLineTerminator c = (c = 10 \<or> c = 13 \<or> c = 8232 \<or> c = 8233)"

text \<open>
  White space as \<open>\s\<close> and \<open>trim\<close> see it: tab, vertical tab, form feed, space,
  no-break space, the byte-order mark, the other space separators, and the line
  terminators.
\<close>

definition isWhiteSpace :: "nat \<Rightarrow> bool" where
  "isWhiteSpace c =
     (c = 9 \<or> c = 11 \<or> c = 12 \<or> c = 32 \<or> c = 160 \<or> c = 5760 \<or>
      (8192 \<le> c \<and> c \<le> 8202) \<or> c = 8239 \<or> c = 8287 \<or> c = 12288 \<or> c = 65279 \<or>
      isLineTerminator c)"

definition trim :: "jsstring \<Rightarrow> jsstring" where
  "trim s = rev (dropWhile isWhiteSpace (rev (dropWhile isWhiteSpace s)))"

text \<open>
  Under the \<open>i\<close> flag (without \<open>u\<close>) an ASCII letter of the pattern matches its two
  cases and nothing else: a code unit above 127 is never folded onto an ASCII one.
\<close>

definition toLowerAscii :: "nat \<Rightarrow> nat" where
  "toLowerAscii c = (if upperAZ c then c + 32 else c)"

definition toUpperAscii :: "nat \<Rightarrow> nat" where
  "toUpperAscii c = (if lowerAZ c then c - 32 else c)"

definition chr :: "char \<Rightarrow> regex" where
  "chr a = Atom (\<lambda>c. c = of_char a)"

definition chr_i :: "char \<Rightarrow> regex" where
  "chr_i a = Atom (\<lambda>c. c = toLowerAscii (of_char a) \<or> c = toUpperAscii (of_char a))"

primrec lit_i :: "string \<Rightarrow> regex" where
  "lit_i [] = Eps"
| "lit_i (a # as) = Seq (chr_i a) (lit_i as)"

primrec rep :: "nat \<Rightarrow> regex \<Rightarrow> regex" where
  "rep 0 r = Eps"
| "rep (Suc k) r = Seq r (rep k r)"

definition rplus :: "regex \<Rightarrow> regex" where
  "rplus r = Seq r (Star r)"

definition lazy_plus :: "regex \<Rightarrow> regex" where
  "lazy_plus r = Seq r (Lazy r)"

fun alts :: "regex list \<Rightarrow> regex" where
  "alts [] = Eps"
| "alts [r] = r"
| "alts (r # rs) = Alt r (alts rs)"

definition dot :: regex where
  "dot = Atom (\<lambda>c. \<not> isLineTerminator c)"

section \<open>The patterns of the local strategies (PATTERNS)\<close>

text \<open>The classes \<open>[:\s\-\.]\<close>, \<open>[:\s-]\<close> and those of the captures.\<close>

definition sepClass :: "nat \<Rightarrow> bool" where
  "sepClass c = (c = of_char CHR '':'' \<or> isWhiteSpace c \<or> c = of_char CHR ''-'' \<or>
                 c = of_char CHR ''.'')"

definition colonClass :: "nat \<Rightarrow> bool" where
  "colonClass c = (c = of_char CHR '':'' \<or> isWhiteSpace c \<or> c = of_char CHR ''-'')"

text \<open>
  \<open>['\<dots>\s]\<close> of RELATIVE holds, in the source file as it is, the apostrophe and the
  three code units U+00E2, U+20AC, U+2122; under the \<open>i\<close> flag U+00E2 also matches its
  capital U+00C2.
\<close>

definition aposClass :: "nat \<Rightarrow> bool" where
  "aposClass c = (c = 39 \<or> c = 226 \<or> c = 194 \<or> c = 8364 \<or> c = 8482 \<or> isWhiteSpace c)"

definition houseClass :: "nat \<Rightarrow> bool" where
  "houseClass c = (digit09 c \<or> c = of_char CHR ''-'' \<or> c = of_char CHR ''/'' \<or>
                   upperAZ c \<or> lowerAZ c \<or> isWhiteSpace c)"

definition letterClass :: "nat \<Rightarrow> bool" where
  "letterClass c = (upperAZ c \<or> lowerAZ c)"

text \<open>\<open>/Name[:\s\-\.]+(.+?)(?:Father|Husband|Mother|Guardian|House|Age|Gender|Sex|Elector|Photo|$)/i\<close>\<close>

definition NAME :: regex where
  "NAME = Seq (lit_i ''Name'') (Seq (rplus (Atom sepClass)) (Seq (Group 1 (lazy_plus dot))
     (alts [lit_i ''Father'', lit_i ''Husband'', lit_i ''Mother'', lit_i ''Guardian'',
            lit_i ''House'', lit_i ''Age'', lit_i ''Gender'', lit_i ''Sex'',
            lit_i ''Elector'', lit_i ''Photo'', Eol])))"

text \<open>\<open>/(?:Father|Husband|Mother|Guardian)['\<dots>\s]*Name[:\s\-\.]+(.+?)(?:House|Age|Gender|Sex|Elector|Photo|$)/i\<close>\<close>

definition RELATIVE :: regex where
  "RELATIVE =
     Seq (alts [lit_i ''Father'', lit_i ''Husband'', lit_i ''Mother'', lit_i ''Guardian''])
       (Seq (Star (Atom aposClass)) (Seq (lit_i ''Name'') (Seq (rplus (Atom sepClass))
         (Seq (Group 1 (lazy_plus dot))
            (alts [lit_i ''House'', lit_i ''Age'', lit_i ''Gender'', lit_i ''Sex'',
                   lit_i ''Elector'', lit_i ''Photo'', Eol])))))"

text \<open>\<open>/(?:House|No|H\.No|Ho)[\s\-\.:]+([0-9\-\/A-Za-z\s]+?)(?:Age|Gender|Sex|$)/i\<close>\<close>

definition HOUSE :: regex where
  "HOUSE =
     Seq (alts [lit_i ''House'', lit_i ''No'', lit_i ''H.No'', lit_i ''Ho''])
       (Seq (rplus (Atom sepClass)) (Seq (Group 1 (lazy_plus (Atom houseClass)))
          (alts [lit_i ''Age'', lit_i ''Gender'', lit_i ''Sex'', Eol])))"

text \<open>\<open>/(?:Age|Aqe)[:\s-]*(\d+)[\s\t]*(?:Gender|Sex)[:\s-]*([A-Za-z]+)/i\<close>\<close>

definition AGE_GENDER :: regex where
  "AGE_GENDER =
     Seq (alts [lit_i ''Age'', lit_i ''Aqe''])
       (Seq (Star (Atom colonClass)) (Seq (Group 1 (rplus (Atom digit09)))
         (Seq (Star (Atom isWhiteSpace)) (Seq (alts [lit_i ''Gender'', lit_i ''Sex''])
           (Seq (Star (Atom colonClass)) (Group 2 (rplus (Atom letterClass))))))))"

text \<open>\<open>/([A-Z]{3}[O0-9]{7}|[A-Z]{3,}\d{5,}[A-Z0-9]*)/\<close>, case-sensitive.\<close>

definition EPIC :: regex where
  "EPIC = Group 1 (Alt
     (Seq (rep 3 (Atom upperAZ)) (rep 7 (Atom (\<lambda>c. c = of_char CHR ''O'' \<or> digit09 c))))
     (Seq (rep 3 (Atom upperAZ)) (Seq (Star (Atom upperAZ))
        (Seq (rep 5 (Atom digit09)) (Seq (Star (Atom digit09))
          (Star (Atom (\<lambda>c. upperAZ c \<or> digit09 c))))))))"

text \<open>\<open>/^(\d+)/\<close>\<close>

definition SL_NO :: regex where
  "SL_NO = Seq Bol (Group 1 (rplus (Atom digit09)))"

text \<open>\<open>/Assembly.*?Constituency[:\s-]*([A-Za-z\s]+)/i\<close>\<close>

definition ASSEMBLY :: regex where
  "ASSEMBLY =
     Seq (lit_i ''Assembly'') (Seq (Lazy dot) (Seq (lit_i ''Constituency'')
       (Seq (Star (Atom colonClass))
          (Group 1 (rplus (Atom (\<lambda>c. letterClass c \<or> isWhiteSpace c)))))))"

text \<open>\<open>/Polling.*?Station[:\s-]*([0-9A-Za-z\s\-\.]+)/i\<close>\<close>

definition POLLING :: regex where
  "POLLING =
     Seq (lit_i ''Polling'') (Seq (Lazy dot) (Seq (lit_i ''Station'')
       (Seq (Star (Atom colonClass))
          (Group 1 (rplus (Atom (\<lambda>c. digit09 c \<or> letterClass c \<or> isWhiteSpace c \<or>
                                      c = of_char CHR ''-'' \<or> c = of_char CHR ''.'')))))))"

section \<open>Errors\<close>

text \<open>
  Everything the code can throw is a value: \<open>Error msg\<close> is \<open>new Error(msg)\<close> of the
  source, \<open>TypeError\<close> and \<open>URIError\<close> are raised by the runtime, and \<open>Failure\<close>
  is a failure inside an external service (network, model, OCR engine, PDF renderer).
\<close>

datatype error = Error string | TypeError | URIError | Failure string

definition bind_e :: "error + 'a \<Rightarrow> ('a \<Rightarrow> error + 'b) \<Rightarrow> error + 'b" where
  "bind_e m f = (case m of Inl e \<Rightarrow> Inl e | Inr a \<Rightarrow> f a)"

primrec mapE :: "('a \<Rightarrow> error + 'b) \<Rightarrow> 'a list \<Rightarrow> error + 'b list" where
  "mapE f [] = Inr []"
| "mapE f (a # as) = bind_e (f a) (\<lambda>b. bind_e (mapE f as) (\<lambda>bs. Inr (b # bs)))"

section \<open>The field extractor\<close>

text \<open>
  Element \<open>k\<close> of a match array. A group that took no part in the match is
  \<open>undefined\<close>: \<open>.trim()\<close> on it raises a TypeError, and stored as it is it would put
  \<open>undefined\<close> into a string field. The model reports both as \<open>TypeError\<close>.
\<close>

definition group :: "jsmatchres \<Rightarrow> nat \<Rightarrow> error + jsstring" where
  "group m k = (case snd (snd m) k of None \<Rightarrow> Inl TypeError | Some g \<Rightarrow> Inr g)"

text \<open>\<open>m ? m[k].trim() : dflt\<close> and \<open>m ? m[k] : dflt\<close>.\<close>

definition trimmedGroup :: "jsmatchres option \<Rightarrow> nat \<Rightarrow> jsstring \<Rightarrow> error + jsstring" where
  "trimmedGroup m k dflt =
     (case m of None \<Rightarrow> Inr dflt | Some r \<Rightarrow> bind_e (group r k) (\<lambda>g. Inr (trim g)))"

definition plainGroup :: "jsmatchres option \<Rightarrow> nat \<Rightarrow> jsstring \<Rightarrow> error + jsstring" where
  "plainGroup m k dflt = (case m of None \<Rightarrow> Inr dflt | Some r \<Rightarrow> group r k)"

text \<open>\<open>.replace(/O/g, '0')\<close>\<close>

definition replaceO :: "jsstring \<Rightarrow> jsstring" where
  "replaceO s = map (\<lambda>c. if c = of_char CHR ''O'' then of_char CHR ''0'' else c) s"

text \<open>
  The record pushed for one card. Both local strategies build it by the same text
  (apiService.ts lines 341-365 and 483-512) from the flattened card text, the normalised
  id, the two header fields, the page number and the photo.
\<close>

definition cardVoter ::
  "jsstring \<Rightarrow> jsstring \<Rightarrow> jsnum \<Rightarrow> jsstring option \<Rightarrow> jsstring \<Rightarrow> jsstring
     \<Rightarrow> error + voter" where
  "cardVoter assembly pollingStation pageNum photo epic fullCardText =
     (let nameMatch = jsmatch NAME fullCardText;
          relativeMatch = jsmatch RELATIVE fullCardText;
          houseMatch = jsmatch HOUSE fullCardText;
          ageGenderMatch = jsmatch AGE_GENDER fullCardText;
          slNoMatch = jsmatch SL_NO fullCardText
      in bind_e (plainGroup slNoMatch 1 []) (\<lambda>sl.
         bind_e (trimmedGroup nameMatch 1 (str ''Unknown'')) (\<lambda>nm.
         bind_e (trimmedGroup relativeMatch 1 []) (\<lambda>rel.
         bind_e (trimmedGroup houseMatch 1 []) (\<lambda>hs.
         bind_e (plainGroup ageGenderMatch 1 []) (\<lambda>ag.
         bind_e (plainGroup ageGenderMatch 2 []) (\<lambda>gd.
           Inr \<lparr>sl_no = sl, epic_no = epic, name_en = nm, name_te = [],
                relative_name = rel, house_no = hs, age = ag, gender = gd,
                assembly_name = assembly, parliament_name = [],
                polling_station_no = pollingStation, photoBase64 = photo,
                originalPage = Some pageNum, isVoted = False, votedParty = None,
                timestamp = None\<rparr>)))))))"

text \<open>The header fields: \<open>m ? m[1].trim() : ""\<close> for the two header patterns.\<close>

definition headerField :: "regex \<Rightarrow> jsstring \<Rightarrow> error + jsstring" where
  "headerField r headerText = trimmedGroup (jsmatch r headerText) 1 []"

text \<open>\<open>xs.join(sep)\<close> on an array of strings.\<close>

fun joinWith :: "jsstring \<Rightarrow> jsstring list \<Rightarrow> jsstring" where
  "joinWith sep [] = []"
| "joinWith sep [x] = x"
| "joinWith sep (x # y # ys) = x @ sep @ joinWith sep (y # ys)"

text \<open>\<open>.replace(/\s+/g, ' ')\<close>: every maximal run of white space becomes one space.\<close>

function collapseWs :: "jsstring \<Rightarrow> jsstring" where
  "collapseWs [] = []"
| "collapseWs (c # cs) =
     (if isWhiteSpace c then 32 # collapseWs (dropWhile isWhiteSpace cs)
      else c # collapseWs cs)"
  by pat_completeness auto
termination
  by (relation "measure length") (auto simp: length_dropWhile_le less_Suc_eq_le)

section \<open>Strategy 1: digital text (extractVotersFromDigitalText)\<close>

text \<open>
  Coordinates are numbers of the host language; they are modelled as exact reals, so
  rounding of the additions that place a window is not part of the model.

  A text item of the PDF text layer: \<open>str\<close>, the two translation entries
  \<open>transform[4]\<close> and \<open>transform[5]\<close> of its 6-entry matrix, \<open>width\<close>, \<open>height\<close>.
\<close>

record textItem =
  ti_str :: jsstring
  ti_transform4 :: real
  ti_transform5 :: real
  ti_width :: real
  ti_height :: real

text \<open>The positioned token built from it: \<open>{text, x, y, w, h}\<close>.\<close>

record item =
  item_text :: jsstring
  item_x :: real
  item_y :: real
  item_w :: real
  item_h :: real

text \<open>
  \<open>decodeURIComponent\<close> belongs to the runtime and raises a URIError on a malformed
  escape; it is a parameter, \<open>None\<close> for the error.
\<close>

definition toItem :: "(jsstring \<Rightarrow> jsstring option) \<Rightarrow> textItem \<Rightarrow> error + item" where
  "toItem decodeURIComponent ti =
     (case decodeURIComponent (ti_str ti) of
        None \<Rightarrow> Inl URIError
      | Some t \<Rightarrow> Inr \<lparr>item_text = t, item_x = ti_transform4 ti, item_y = ti_transform5 ti,
                       item_w = ti_width ti, item_h = ti_height ti\<rparr>)"

text \<open>
  \<open>items.filter(i => i.y > pageHeight * 0.9)\<close> with
  \<open>pageHeight = Math.max(...items.map(i => i.y))\<close>; without items the filter has nothing
  to look at.
\<close>

definition headerItems :: "item list \<Rightarrow> item list" where
  "headerItems items =
     (case items of
        [] \<Rightarrow> []
      | i # rest \<Rightarrow>
          (let pageHeight = fold max (map item_y rest) (item_y i)
           in filter (\<lambda>j. item_y j > pageHeight * (9 / 10)) items))"

definition epicItems :: "item list \<Rightarrow> item list" where
  "epicItems items = filter (\<lambda>i. test EPIC (item_text i)) items"

record region =
  xMin :: real
  xMax :: real
  yMin :: real
  yMax :: real

definition cardRegionDigital :: "item \<Rightarrow> region" where
  "cardRegionDigital epicItem =
     \<lparr>xMin = item_x epicItem - 200, xMax = item_x epicItem + 200,
      yMin = item_y epicItem - 120, yMax = item_y epicItem + 60\<rparr>"

definition inRegionDigital :: "region \<Rightarrow> item \<Rightarrow> bool" where
  "inRegionDigital r i =
     (item_x i \<ge> xMin r \<and> item_x i \<le> xMax r \<and> item_y i \<ge> yMin r \<and> item_y i \<le> yMax r)"

definition cardItems :: "item list \<Rightarrow> item \<Rightarrow> item list" where
  "cardItems items epicItem = filter (inRegionDigital (cardRegionDigital epicItem)) items"

text \<open>The comparator handed to \<open>sort\<close>: rows top-down (\<open>y\<close> descending), then \<open>x\<close>.\<close>

definition compareDigital :: "item \<Rightarrow> item \<Rightarrow> real" where
  "compareDigital a b =
     (if \<bar>item_y a - item_y b\<bar> > 5 then item_y b - item_y a else item_x a - item_x b)"

definition epicOf :: "jsstring \<Rightarrow> jsstring" where
  "epicOf t = (case jsmatch EPIC t of Some m \<Rightarrow> replaceO (fst (snd m)) | None \<Rightarrow> [])"

text \<open>
  \<open>Array.prototype.sort\<close> is the runtime's; with this comparator, which is not a
  consistent order, its result is implementation-defined, so the sort is a parameter.
\<close>

definition digitalCardText ::
  "((item \<Rightarrow> item \<Rightarrow> real) \<Rightarrow> item list \<Rightarrow> item list) \<Rightarrow> item list \<Rightarrow> item \<Rightarrow> jsstring" where
  "digitalCardText sortItems items epicItem =
     collapseWs (joinWith (str '' '')
       (map item_text (sortItems compareDigital (cardItems items epicItem))))"

definition extractVotersFromDigitalText ::
  "(jsstring \<Rightarrow> jsstring option) \<Rightarrow> ((item \<Rightarrow> item \<Rightarrow> real) \<Rightarrow> item list \<Rightarrow> item list)
     \<Rightarrow> textItem list \<Rightarrow> jsnum \<Rightarrow> error + voter list" where
  "extractVotersFromDigitalText decodeURIComponent sortItems textItems pageNum =
     bind_e (mapE (toItem decodeURIComponent) textItems) (\<lambda>items.
       (let headerText = joinWith (str '' '') (map item_text (headerItems items))
        in bind_e (headerField ASSEMBLY headerText) (\<lambda>assembly.
           bind_e (headerField POLLING headerText) (\<lambda>pollingStation.
             mapE (\<lambda>epicItem.
                     cardVoter assembly pollingStation pageNum None
                       (epicOf (item_text epicItem))
                       (digitalCardText sortItems items epicItem))
                  (epicItems items)))))"

section \<open>Strategy 2: image OCR (extractVotersFromImage of the OCR service)\<close>

record bbox =
  x0 :: real
  y0 :: real
  x1 :: real
  y1 :: real

record word =
  word_text :: jsstring
  word_bbox :: bbox

definition cardRegionOCR :: "bbox \<Rightarrow> bbox" where
  "cardRegionOCR b = \<lparr>x0 = x0 b - 250, y0 = y0 b - 20, x1 = x1 b + 100, y1 = y1 b + 140\<rparr>"

definition inRegionOCR :: "bbox \<Rightarrow> word \<Rightarrow> bool" where
  "inRegionOCR cardRegion w =
     (x0 (word_bbox w) \<ge> x0 cardRegion \<and> x1 (word_bbox w) \<le> x1 cardRegion \<and>
      y0 (word_bbox w) \<ge> y0 cardRegion \<and> y1 (word_bbox w) \<le> y1 cardRegion)"

definition cardWords :: "word list \<Rightarrow> word \<Rightarrow> word list" where
  "cardWords words epicWord = filter (inRegionOCR (cardRegionOCR (word_bbox epicWord))) words"

definition compareOCR :: "word \<Rightarrow> word \<Rightarrow> real" where
  "compareOCR a b =
     (if \<bar>y0 (word_bbox a) - y0 (word_bbox b)\<bar> > 10
      then y0 (word_bbox a) - y0 (word_bbox b)
      else x0 (word_bbox a) - x0 (word_bbox b))"

text \<open>
  The anchors of the loop: the words that pass \<open>PATTERNS.EPIC.test\<close> and whose
  normalised id is not empty (\<open>if (!epicNo) continue\<close>).
\<close>

definition epics :: "word list \<Rightarrow> word list" where
  "epics words = filter (\<lambda>w. test EPIC (word_text w)) words"

definition ocrAnchors :: "word list \<Rightarrow> word list" where
  "ocrAnchors words = filter (\<lambda>w. epicOf (word_text w) \<noteq> []) (epics words)"

text \<open>The box handed to \<open>cropImage\<close>: the right 35 percent of the card.\<close>

definition photoBox :: "bbox \<Rightarrow> real list" where
  "photoBox cardRegion =
     (let cardWidth = x1 cardRegion - x0 cardRegion;
          pX = x1 cardRegion - cardWidth * (35 / 100)
      in [y0 cardRegion + 30, pX, y1 cardRegion - 10, x1 cardRegion])"

text \<open>\<open>s.split(',')[1]\<close> inside a template string, where \<open>undefined\<close> prints as text.\<close>

definition splitComma1 :: "jsstring \<Rightarrow> jsstring" where
  "splitComma1 s =
     (if of_char CHR '','' \<in> set s
      then takeWhile (\<lambda>c. c \<noteq> of_char CHR '','')
             (tl (dropWhile (\<lambda>c. c \<noteq> of_char CHR '','') s))
      else str ''undefined'')"

text \<open>
  The environment of the OCR strategy: the canvas binarisation (it resolves in every
  case), the OCR engine with its worker (creating, configuring, running or ending it may
  fail, and so may reading \<open>data.words\<close>), the runtime's sort, and \<open>cropImage\<close>, which
  resolves to the empty string when it cannot crop.
\<close>

record ocrEnv =
  preprocessImage :: "jsstring \<Rightarrow> jsstring"
  recognize :: "jsstring \<Rightarrow> error + word list"
  sortWords :: "(word \<Rightarrow> word \<Rightarrow> real) \<Rightarrow> word list \<Rightarrow> word list"
  cropImageOCR :: "jsstring \<Rightarrow> real list \<Rightarrow> jsstring"

text \<open>The body of the \<open>try\<close> block.\<close>

definition ocrTry :: "ocrEnv \<Rightarrow> jsstring \<Rightarrow> jsnum \<Rightarrow> bool \<Rightarrow> error + voter list" where
  "ocrTry env base64Image pageNumber includePhotos =
     (let enhancedImageBase64 = preprocessImage env base64Image;
          finalImage = splitComma1 enhancedImageBase64
      in bind_e (recognize env (str ''data:image/jpeg;base64,'' @ finalImage)) (\<lambda>words.
         (let fullPageText =
                joinWith (str '' '')
                  (map word_text (filter (\<lambda>w. y1 (word_bbox w) < 150) words))
          in bind_e (headerField ASSEMBLY fullPageText) (\<lambda>assembly.
             bind_e (headerField POLLING fullPageText) (\<lambda>pollingStation.
               mapE (\<lambda>epicWord.
                       (let cardRegion = cardRegionOCR (word_bbox epicWord);
                            fullCardText = joinWith (str '' '')
                              (map word_text (sortWords env compareOCR (cardWords words epicWord)));
                            photo = (if includePhotos
                                     then Some (cropImageOCR env base64Image (photoBox cardRegion))
                                     else None)
                        in cardVoter assembly pollingStation pageNumber photo
                             (epicOf (word_text epicWord)) fullCardText))
                    (ocrAnchors words))))))"

text \<open>\<open>try { ... } catch (error) { console.error(...); return []; }\<close>\<close>

definition extractVotersFromImageOCR ::
  "ocrEnv \<Rightarrow> jsstring \<Rightarrow> jsnum \<Rightarrow> bool \<Rightarrow> error + voter list" where
  "extractVotersFromImageOCR env base64Image pageNumber includePhotos =
     (case ocrTry env base64Image pageNumber includePhotos of
        Inl e \<Rightarrow> Inr []
      | Inr voters \<Rightarrow> Inr voters)"

section \<open>Strategy 3: remote vision model (extractVotersFromImage of geminiService)\<close>

definition FALLBACK_MODELS :: "string list" where
  "FALLBACK_MODELS = [''gemini-3-pro-preview'', ''gemini-2.5-flash'', ''gemini-2.0-flash'']"

definition maxRetries :: nat where
  "maxRetries = 6"

definition baseDelay :: real where
  "baseDelay = 1500"

text \<open>
  The element type \<open>VoterRawData\<close> of the parsed response. The response schema makes
  every property a string and the photo box an array of numbers; a property may be
  missing (\<open>None\<close>).
\<close>

record voterRawData =
  raw_sl_no :: "jsstring option"
  raw_epic_no :: "jsstring option"
  raw_name_en :: "jsstring option"
  raw_name_te :: "jsstring option"
  raw_relative_name :: "jsstring option"
  raw_house_no :: "jsstring option"
  raw_age :: "jsstring option"
  raw_gender :: "jsstring option"
  raw_assembly_name :: "jsstring option"
  raw_parliament_name :: "jsstring option"
  raw_polling_station_no :: "jsstring option"
  photo_box_2d :: "real list option"

text \<open>
  What \<open>JSON.parse\<close> can return, as far as the code tells the cases apart: an array
  (whose elements are objects or \<open>null\<close>), an object with an array property
  \<open>voters\<close>, any other object, or a value that is no object (a number, a string, a
  boolean, \<open>null\<close>).
\<close>

datatype parsed =
    ParsedArray "voterRawData option list"
  | ParsedVoters "voterRawData option list"
  | ParsedObject voterRawData
  | ParsedOther

text \<open>
  The environment of the remote strategy: the API key of the process environment, the
  model service (the answer to the request of a given attempt to a given model: a failure,
  or a response whose \<open>text\<close> may be undefined), \<open>JSON.parse\<close> (\<open>None\<close> when it
  raises), \<open>Math.random()\<close> after the failure of a given number, and \<open>cropImage\<close>,
  which resolves to the empty string when it cannot crop.
\<close>

record remoteEnv =
  apiKey :: "jsstring option"
  generateContent :: "nat \<Rightarrow> string \<Rightarrow> error + jsstring option"
  jsonParse :: "jsstring \<Rightarrow> parsed option"
  random :: "nat \<Rightarrow> real"
  cropImage :: "jsstring \<Rightarrow> real list \<Rightarrow> jsstring"

text \<open>What the strategy does to the outside, in order.\<close>

datatype event = Request string | Sleep real

text \<open>\<open>s.indexOf(c)\<close> and \<open>s.lastIndexOf(c)\<close>, \<open>None\<close> for \<open>-1\<close>.\<close>

fun indexOf :: "nat \<Rightarrow> jsstring \<Rightarrow> nat option" where
  "indexOf c [] = None"
| "indexOf c (a # s) = (if a = c then Some 0 else map_option Suc (indexOf c s))"

definition lastIndexOf :: "nat \<Rightarrow> jsstring \<Rightarrow> nat option" where
  "lastIndexOf c s = map_option (\<lambda>i. length s - 1 - i) (indexOf c (rev s))"

text \<open>\<open>s.replace(r, "")\<close> for a regex without the \<open>g\<close> flag.\<close>

definition removeFirst :: "regex \<Rightarrow> jsstring \<Rightarrow> jsstring" where
  "removeFirst r s =
     (case jsmatch r s of
        None \<Rightarrow> s
      | Some m \<Rightarrow> take (fst m) s @ drop (fst m + length (fst (snd m))) s)"

primrec lit :: "string \<Rightarrow> regex" where
  "lit [] = Eps"
| "lit (a # as) = Seq (chr a) (lit as)"

text \<open>\<open>/^```json\s*/\<close>, \<open>/^```\s*/\<close> and \<open>/\s*```$/\<close>\<close>

definition FENCE_JSON :: regex where
  "FENCE_JSON = Seq Bol (Seq (lit ''```json'') (Star (Atom isWhiteSpace)))"

definition FENCE_OPEN :: regex where
  "FENCE_OPEN = Seq Bol (Seq (lit ''```'') (Star (Atom isWhiteSpace)))"

definition FENCE_CLOSE :: regex where
  "FENCE_CLOSE = Seq (Star (Atom isWhiteSpace)) (Seq (lit ''```'') Eol)"

text \<open>
  From \<open>response.text\<close> to the string handed to \<open>JSON.parse\<close>: the outermost
  bracket pair when there is one, else the text without its code fence.
\<close>

definition jsonStringOf :: "jsstring option \<Rightarrow> jsstring" where
  "jsonStringOf responseText =
     (let jsonString = (case responseText of None \<Rightarrow> str ''[]''
                        | Some t \<Rightarrow> if t = [] then str ''[]'' else t)
      in case (indexOf (of_char CHR ''['') jsonString,
               lastIndexOf (of_char CHR '']'') jsonString) of
           (Some firstBracket, Some lastBracket) \<Rightarrow>
             if lastBracket > firstBracket
             then take (lastBracket + 1 - firstBracket) (drop firstBracket jsonString)
             else removeFirst FENCE_CLOSE (removeFirst FENCE_OPEN (removeFirst FENCE_JSON jsonString))
         | _ \<Rightarrow> removeFirst FENCE_CLOSE (removeFirst FENCE_OPEN (removeFirst FENCE_JSON jsonString)))"

text \<open>\<open>rawData\<close> from the parsed value.\<close>

definition rawDataOf :: "parsed \<Rightarrow> voterRawData option list" where
  "rawDataOf p =
     (case p of
        ParsedArray xs \<Rightarrow> xs
      | ParsedVoters xs \<Rightarrow> xs
      | ParsedObject x \<Rightarrow> [Some x]
      | ParsedOther \<Rightarrow> [])"

text \<open>\<open>raw.f || ""\<close>\<close>

definition orEmpty :: "jsstring option \<Rightarrow> jsstring" where
  "orEmpty f = (case f of None \<Rightarrow> [] | Some t \<Rightarrow> t)"

text \<open>
  One element of \<open>rawData\<close> to a record. Reading a property of \<open>null\<close> raises a
  TypeError, which rejects the \<open>Promise.all\<close>.
\<close>

definition toVoter ::
  "remoteEnv \<Rightarrow> jsstring \<Rightarrow> jsnum \<Rightarrow> bool \<Rightarrow> voterRawData option \<Rightarrow> error + voter" where
  "toVoter env base64Image pageNumber includePhotos rawOpt =
     (case rawOpt of
        None \<Rightarrow> Inl TypeError
      | Some raw \<Rightarrow>
          Inr \<lparr>sl_no = orEmpty (raw_sl_no raw), epic_no = orEmpty (raw_epic_no raw),
               name_en = orEmpty (raw_name_en raw), name_te = orEmpty (raw_name_te raw),
               relative_name = orEmpty (raw_relative_name raw),
               house_no = orEmpty (raw_house_no raw), age = orEmpty (raw_age raw),
               gender = orEmpty (raw_gender raw),
               assembly_name = orEmpty (raw_assembly_name raw),
               parliament_name = orEmpty (raw_parliament_name raw),
               polling_station_no = orEmpty (raw_polling_station_no raw),
               photoBase64 =
                 (case photo_box_2d raw of
                    None \<Rightarrow> None
                  | Some box \<Rightarrow>
                      if includePhotos \<and> length box = 4
                      then Some (cropImage env base64Image box) else None),
               originalPage = Some pageNumber, isVoted = False, votedParty = None,
               timestamp = None\<rparr>)"

text \<open>The body of the \<open>try\<close> block of one attempt, after the model has been chosen.\<close>

definition attemptBody ::
  "remoteEnv \<Rightarrow> jsstring \<Rightarrow> jsnum \<Rightarrow> bool \<Rightarrow> nat \<Rightarrow> string \<Rightarrow> error + voter list" where
  "attemptBody env base64Image pageNumber includePhotos attempt currentModel =
     bind_e (generateContent env attempt currentModel) (\<lambda>responseText.
       (case jsonParse env (jsonStringOf responseText) of
          None \<Rightarrow> Inl (Error ''JSON Parse Failed'')
        | Some p \<Rightarrow> mapE (toVoter env base64Image pageNumber includePhotos) (rawDataOf p)))"

text \<open>
  \<open>while (attempt < maxRetries) { try { ... return processedVoters } catch { ... } }\<close>,
  with the events so far. After a failure the attempt counter is incremented; when no
  attempt is left the page is given up with an empty list, else the strategy sleeps
  \<open>baseDelay * attempt + Math.random() * 500\<close> and goes round again.
\<close>

function attempts ::
  "remoteEnv \<Rightarrow> jsstring \<Rightarrow> jsnum \<Rightarrow> bool \<Rightarrow> nat \<Rightarrow> event list \<Rightarrow> event list \<times> voter list" where
  "attempts env base64Image pageNumber includePhotos attempt trace =
     (if attempt < maxRetries then
        (let currentModel = FALLBACK_MODELS ! (attempt mod length FALLBACK_MODELS);
             trace1 = trace @ [Request currentModel]
         in case attemptBody env base64Image pageNumber includePhotos attempt currentModel of
              Inr processedVoters \<Rightarrow> (trace1, processedVoters)
            | Inl e \<Rightarrow>
                (if attempt + 1 \<ge> maxRetries then (trace1, [])
                 else attempts env base64Image pageNumber includePhotos (attempt + 1)
                        (trace1 @ [Sleep (baseDelay * real (attempt + 1)
                                          + random env (attempt + 1) * 500)])))
      else (trace, []))"
  by pat_completeness auto
termination
  by (relation "measure (\<lambda>(env, img, pg, ph, attempt, trace). maxRetries - attempt)") auto

text \<open>
  The whole function: without an API key (undefined or empty) it throws before the first
  attempt.
\<close>

definition extractVotersFromImage ::
  "remoteEnv \<Rightarrow> jsstring \<Rightarrow> jsnum \<Rightarrow> bool \<Rightarrow> event list \<times> (error + voter list)" where
  "extractVotersFromImage env base64Image pageNumber includePhotos =
     (if apiKey env = None \<or> apiKey env = Some []
      then ([], Inl (Error ''API Key is missing. Please check your environment configuration.''))
      else (case attempts env base64Image pageNumber includePhotos 0 [] of
              (trace, voters) \<Rightarrow> (trace, Inr voters)))"

section \<open>The application state (App.tsx)\<close>

record processingStatus =
  st_total :: nat
  st_current :: nat
  st_message :: jsstring
  st_isProcessing :: bool

datatype view = UPLOAD | DASHBOARD

text \<open>The three pieces of component state that the functions below set.\<close>

record appState =
  app_voters :: "voter list"
  app_status :: processingStatus
  app_view :: view

section \<open>Numbers as text\<close>

text \<open>
  The decimal digits of a natural number, and \<open>String(n)\<close> for the numbers of the
  model (page indices and time stamps, far below the size at which the host language
  switches to exponent notation).
\<close>

function digitsOf :: "nat \<Rightarrow> jsstring" where
  "digitsOf n = (if n < 10 then [48 + n] else digitsOf (n div 10) @ [48 + n mod 10])"
  by pat_completeness auto
termination
  by (relation "measure id") auto

definition numToString :: "jsnum \<Rightarrow> jsstring" where
  "numToString x =
     (case x of
        NaN \<Rightarrow> str ''NaN''
      | Num i \<Rightarrow> if i < 0 then of_char CHR ''-'' # digitsOf (nat (- i)) else digitsOf (nat i))"

text \<open>The value of a code unit as a digit, for radix up to 36.\<close>

definition digitVal :: "nat \<Rightarrow> nat option" where
  "digitVal c =
     (if digit09 c then Some (c - 48)
      else if lowerAZ c then Some (c - 87)
      else if upperAZ c then Some (c - 55)
      else None)"

definition isDigitIn :: "nat \<Rightarrow> nat \<Rightarrow> bool" where
  "isDigitIn radix c = (case digitVal c of None \<Rightarrow> False | Some v \<Rightarrow> v < radix)"

text \<open>
  \<open>parseInt(s)\<close> without a radix: leading white space is skipped, then a sign, then
  \<open>0x\<close> or \<open>0X\<close> selects radix 16, and the longest run of digits is the value;
  no digit gives \<open>NaN\<close>. The value is exact in the model.
\<close>

definition parseInt :: "jsstring \<Rightarrow> jsnum" where
  "parseInt s =
     (let s1 = dropWhile isWhiteSpace s;
          neg = (case s1 of [] \<Rightarrow> False | c # t \<Rightarrow> c = of_char CHR ''-'');
          s2 = (case s1 of [] \<Rightarrow> []
                | c # t \<Rightarrow> if c = of_char CHR ''-'' \<or> c = of_char CHR ''+'' then t else s1);
          hex = (case s2 of a # b # t \<Rightarrow>
                   a = of_char CHR ''0'' \<and> (b = of_char CHR ''x'' \<or> b = of_char CHR ''X'')
                 | _ \<Rightarrow> False);
          radix = (if hex then 16 else 10);
          s3 = (if hex then drop 2 s2 else s2);
          ds = takeWhile (isDigitIn radix) s3
      in if ds = [] then NaN
         else Num ((if neg then - 1 else 1)
                   * int (foldl (\<lambda>acc c. acc * radix + the (digitVal c)) 0 ds)))"

section \<open>The tabular format (App.tsx)\<close>

subsection \<open>parseCSVLine\<close>

text \<open>\<open>.replace(/^"|"$/g, '')\<close>: a quote at the very start and a quote at the very end go.\<close>

definition stripOuterQuotes :: "jsstring \<Rightarrow> jsstring" where
  "stripOuterQuotes s =
     (let s1 = (case s of [] \<Rightarrow> [] | c # t \<Rightarrow> if c = of_char CHR 0x22 then t else s)
      in if s1 \<noteq> [] \<and> last s1 = of_char CHR 0x22 then butlast s1 else s1)"

text \<open>\<open>.replace(/""/g, '"')\<close>\<close>

fun unescapeQuotes :: "jsstring \<Rightarrow> jsstring" where
  "unescapeQuotes (a # b # s) =
     (if a = of_char CHR 0x22 \<and> b = of_char CHR 0x22 then a # unescapeQuotes s
      else a # unescapeQuotes (b # s))"
| "unescapeQuotes s = s"

definition finishField :: "jsstring \<Rightarrow> jsstring" where
  "finishField current = trim (unescapeQuotes (stripOuterQuotes current))"

text \<open>
  The loop over the characters, with \<open>result\<close>, \<open>current\<close> and \<open>inQuotes\<close>. A quote
  only flips \<open>inQuotes\<close>; it is not added to \<open>current\<close>.
\<close>

fun parseLoop :: "nat \<Rightarrow> jsstring \<Rightarrow> jsstring list \<Rightarrow> jsstring \<Rightarrow> bool \<Rightarrow> jsstring list" where
  "parseLoop delimiter [] result current inQuotes = result @ [finishField current]"
| "parseLoop delimiter (char # rest) result current inQuotes =
     (if char = of_char CHR 0x22 then parseLoop delimiter rest result current (\<not> inQuotes)
      else if char = delimiter \<and> \<not> inQuotes
           then parseLoop delimiter rest (result @ [finishField current]) [] inQuotes
      else parseLoop delimiter rest result (current @ [char]) inQuotes)"

definition parseCSVLine :: "jsstring \<Rightarrow> nat \<Rightarrow> jsstring list" where
  "parseCSVLine s delimiter = parseLoop delimiter s [] [] False"

subsection \<open>generateCSVContent\<close>

definition headers :: "string list" where
  "headers = [''Serial No'', ''EPIC No'', ''Name (English)'', ''Name (Telugu)'',
              ''Relation Name'', ''House No'', ''Age'', ''Gender'', ''Assembly'',
              ''Parliament'', ''Polling Station'', ''Voted?'', ''Party'', ''Page No'',
              ''Timestamp'']"

text \<open>\<open>`"${s.replace(/"/g, '""')}"`\<close>\<close>

definition quoted :: "jsstring \<Rightarrow> jsstring" where
  "quoted s =
     of_char CHR 0x22 #
     concat (map (\<lambda>c. if c = of_char CHR 0x22 then [c, c] else [c]) s) @ [of_char CHR 0x22]"

text \<open>
  The cells of one row. In \<open>join\<close> an undefined page number prints as the empty string;
  \<open>v.timestamp || ''\<close> is empty for an undefined, zero or \<open>NaN\<close> time stamp.
\<close>

definition rowCells :: "voter \<Rightarrow> jsstring list" where
  "rowCells v =
     [sl_no v, epic_no v, quoted (name_en v), quoted (name_te v), quoted (relative_name v),
      quoted (house_no v), age v, gender v, quoted (assembly_name v),
      quoted (parliament_name v), quoted (polling_station_no v),
      (if isVoted v then str ''YES'' else str ''NO''),
      (case votedParty v of None \<Rightarrow> [] | Some party \<Rightarrow> party),
      (case originalPage v of None \<Rightarrow> [] | Some n \<Rightarrow> numToString n),
      (case timestamp v of None \<Rightarrow> [] | Some NaN \<Rightarrow> []
       | Some (Num t) \<Rightarrow> if t = 0 then [] else numToString (Num t))]"

definition BOM :: nat where
  "BOM = 65279"

definition generateCSVContent :: "voter list \<Rightarrow> jsstring" where
  "generateCSVContent votersData =
     BOM # joinWith (str [CHR 0x0A])
             (joinWith (str '','') (map str headers)
              # map (\<lambda>v. joinWith (str '','') (rowCells v)) votersData)"

subsection \<open>processCSVText\<close>

datatype source = API | FILE | HISTORY

text \<open>\<open>text.split(/\r\n|\n|\r/)\<close>, with the line read so far.\<close>

fun splitLines :: "jsstring \<Rightarrow> jsstring \<Rightarrow> jsstring list" where
  "splitLines [] cur = [cur]"
| "splitLines (c # s) cur =
     (if c = 13 then (case s of [] \<Rightarrow> cur # splitLines s []
                      | d # s' \<Rightarrow> if d = 10 then cur # splitLines s' []
                                   else cur # splitLines s [])
      else if c = 10 then cur # splitLines s []
      else splitLines s (cur @ [c]))"

text \<open>\<open>cols[k] || ""\<close>\<close>

definition col :: "jsstring list \<Rightarrow> nat \<Rightarrow> jsstring" where
  "col cols k = (if k < length cols then cols ! k else [])"

text \<open>
  \<open>s.toUpperCase() === 'YES'\<close>: the code units whose upper case is Y, E or S are the
  two cases of these letters and the long s, U+017F.
\<close>

definition upperIsYES :: "jsstring \<Rightarrow> bool" where
  "upperIsYES s =
     (case s of
        [a, b, c] \<Rightarrow> (a = 89 \<or> a = 121) \<and> (b = 69 \<or> b = 101) \<and> (c = 83 \<or> c = 115 \<or> c = 383)
      | _ \<Rightarrow> False)"

definition rowVoter :: "jsstring list \<Rightarrow> voter" where
  "rowVoter cols =
     \<lparr>sl_no = col cols 0, epic_no = col cols 1, name_en = col cols 2, name_te = col cols 3,
      relative_name = col cols 4, house_no = col cols 5, age = col cols 6,
      gender = col cols 7, assembly_name = col cols 8, parliament_name = col cols 9,
      polling_station_no = col cols 10, photoBase64 = None,
      originalPage = Some (if col cols 13 \<noteq> [] then parseInt (col cols 13) else Num 0),
      isVoted = (11 < length cols \<and> upperIsYES (cols ! 11)),
      votedParty = (if col cols 12 \<noteq> [] \<and> col cols 12 \<noteq> str ''null''
                    then Some (col cols 12) else None),
      timestamp = None\<rparr>"

text \<open>The loop over the data lines: a line with fewer than 3 columns is skipped.\<close>

definition loadVoters :: "nat \<Rightarrow> jsstring list \<Rightarrow> voter list" where
  "loadVoters delimiter dataLines =
     map rowVoter (filter (\<lambda>cols. \<not> length cols < 3)
                          (map (\<lambda>line. parseCSVLine line delimiter) dataLines))"

definition csvLines :: "jsstring \<Rightarrow> jsstring list" where
  "csvLines text =
     (let text1 = (case text of [] \<Rightarrow> [] | c # t \<Rightarrow> if c = 65279 then t else text)
      in filter (\<lambda>line. length (trim line) > 0) (splitLines text1 []))"

text \<open>
  The function returns the state it leaves and either the error it throws or the list it
  returns. Both \<open>throw\<close>s come before the first \<open>set...\<close> call.
\<close>

definition processCSVText ::
  "jsstring \<Rightarrow> source \<Rightarrow> appState \<Rightarrow> appState \<times> (error + voter list)" where
  "processCSVText text source st =
     (let lines = csvLines text
      in if length lines < 2
         then (st, Inl (Error ''Data appears to be empty or missing headers.''))
         else
           (let firstLine = hd lines;
                delimiter = (if of_char CHR '';'' \<in> set firstLine
                             then of_char CHR '';'' else of_char CHR '','');
                loadedVoters = loadVoters delimiter (tl lines)
            in if loadedVoters = []
               then (st, Inl (Error ''No valid voter records parsed.''))
               else
                 (st\<lparr>app_voters := loadedVoters,
                     app_status := \<lparr>st_total = 0, st_current = 0,
                        st_message = (if source = API then str ''Extraction Complete!''
                                      else str ''Data Loaded Successfully''),
                        st_isProcessing = False\<rparr>,
                     app_view := (if source = FILE \<or> source = HISTORY then DASHBOARD
                                  else app_view st)\<rparr>,
                  Inr loadedVoters)))"

section \<open>The local fallback (App.tsx, processPdfLocally)\<close>

text \<open>
  The environment of the coordinator: loading the document (its page count, or a
  failure), rendering a page to an image, the per-page extraction strategy it imports,
  and, for the tasks that run concurrently, the moment at which each page's rendering
  and each page's task completes.
\<close>

record pdfEnv =
  getDocument :: "error + nat"
  getPdfPageAsBase64 :: "nat \<Rightarrow> error + jsstring"
  extractPage :: "jsstring \<Rightarrow> nat \<Rightarrow> bool \<Rightarrow> error + voter list"
  renderedAt :: "nat \<Rightarrow> nat"
  finishedAt :: "nat \<Rightarrow> nat"

datatype pageEvent = Started nat | Finished nat

text \<open>
  What the coordinator has built so far: the local array \<open>allVoters\<close>, the component
  state, and the starts and completions of the page tasks in the order they happen.
\<close>

record localRun =
  allVoters :: "voter list"
  run_app :: appState
  run_trace :: "pageEvent list"

text \<open>
  One page task: \<open>try { render; setStatus; extract; push } catch { log }\<close>. What it
  contributes is the list the strategy returns, or nothing when rendering or extraction
  throws.
\<close>

definition pageVoters :: "pdfEnv \<Rightarrow> nat \<Rightarrow> voter list" where
  "pageVoters env pageNum =
     (case getPdfPageAsBase64 env pageNum of
        Inl e \<Rightarrow> []
      | Inr base64 \<Rightarrow>
          (case extractPage env base64 pageNum False of Inl e \<Rightarrow> [] | Inr vs \<Rightarrow> vs))"

text \<open>The status update of a task, which happens once its page is rendered.\<close>

definition pageStatus :: "pdfEnv \<Rightarrow> nat \<Rightarrow> nat \<Rightarrow> processingStatus \<Rightarrow> processingStatus" where
  "pageStatus env totalPages pageNum prev =
     (case getPdfPageAsBase64 env pageNum of
        Inl e \<Rightarrow> prev
      | Inr base64 \<Rightarrow>
          prev\<lparr>st_current := st_current prev + 1,
               st_message := str ''Processing Page '' @ numToString (Num (int pageNum))
                             @ str '' of '' @ numToString (Num (int totalPages))
                             @ str ''...''\<rparr>)"

text \<open>
  One batch: \<open>await Promise.all(batch.map(async pageNum => ...))\<close>. All tasks of the
  batch are started, in batch order; their status updates take effect in the order in
  which the renderings complete and their results are appended in the order in which the
  tasks complete (the two touch different parts of the state); the batch is over when all
  its tasks have completed.
\<close>

definition runBatch :: "pdfEnv \<Rightarrow> nat \<Rightarrow> nat list \<Rightarrow> localRun \<Rightarrow> localRun" where
  "runBatch env totalPages batch run =
     (let completed = sort_key (finishedAt env) batch;
          found = concat (map (pageVoters env) completed);
          app = run_app run
      in \<lparr>allVoters = allVoters run @ found,
          run_app = app\<lparr>app_voters := app_voters app @ found,
                        app_status := fold (pageStatus env totalPages)
                                           (sort_key (renderedAt env) batch) (app_status app)\<rparr>,
          run_trace = run_trace run @ map Started batch @ map Finished completed\<rparr>)"

text \<open>
  \<open>while (pageQueue.length > 0) { const batch = pageQueue.splice(0, concurrency); ... }\<close>.
  With a concurrency of 0 the queue never shrinks and the loop does not end: \<open>None\<close>.
\<close>

function processBatch ::
  "pdfEnv \<Rightarrow> nat \<Rightarrow> nat \<Rightarrow> nat list \<Rightarrow> localRun \<Rightarrow> localRun option" where
  "processBatch env totalPages concurrency pageQueue run =
     (if pageQueue = [] then Some run
      else if concurrency = 0 then None
      else processBatch env totalPages concurrency (drop concurrency pageQueue)
             (runBatch env totalPages (take concurrency pageQueue) run))"
  by pat_completeness auto
termination
  by (relation "measure (\<lambda>(env, tp, c, q, run). length q)") auto

text \<open>
  The whole function: \<open>None\<close> when it does not return, \<open>Inl\<close> when loading the
  document fails (the promise is rejected and the state is as before).
\<close>

definition processPdfLocally ::
  "pdfEnv \<Rightarrow> nat \<Rightarrow> appState \<Rightarrow> (error + localRun) option" where
  "processPdfLocally env concurrency st =
     (case getDocument env of
        Inl e \<Rightarrow> Some (Inl e)
      | Inr totalPages \<Rightarrow>
          (let st1 = st\<lparr>app_status := \<lparr>st_total = totalPages, st_current = 0,
                          st_message = str ''Starting Local Extraction...'',
                          st_isProcessing = True\<rparr>\<rparr>;
               pageQueue = drop 2 (map (\<lambda>i. i + 1) [0..<totalPages])
           in case processBatch env totalPages concurrency pageQueue
                     \<lparr>allVoters = [], run_app = st1, run_trace = []\<rparr> of
                None \<Rightarrow> None
              | Some run \<Rightarrow>
                  Some (Inr (if allVoters run = []
                             then run\<lparr>run_app := (run_app run)\<lparr>app_status :=
                                    \<lparr>st_total = totalPages, st_current = totalPages,
                                     st_message = str ''No voters found. Please try a different PDF or Quality.'',
                                     st_isProcessing = False\<rparr>\<rparr>\<rparr>
                             else run))))"

text \<open>The batches the loop takes from a queue.\<close>

function chunks :: "nat \<Rightarrow> nat list \<Rightarrow> nat list list" where
  "chunks c q = (if q = [] \<or> c = 0 then [] else take c q # chunks c (drop c q))"
  by pat_completeness auto
termination
  by (relation "measure (\<lambda>(c, q). length q)") auto

section \<open>Notions used to state the properties\<close>

text \<open>
  \<open>prefix_i lbl s\<close>: the text \<open>s\<close> starts with the label \<open>lbl\<close>, letter case
  ignored; \<open>containsLabel lbl s\<close>: the label occurs somewhere in \<open>s\<close>.
\<close>

fun prefix_i :: "string \<Rightarrow> jsstring \<Rightarrow> bool" where
  "prefix_i [] s = True"
| "prefix_i (a # as) [] = False"
| "prefix_i (a # as) (c # cs) =
     (toLowerAscii c = toLowerAscii (of_char a) \<and> prefix_i as cs)"

fun containsLabel :: "string \<Rightarrow> jsstring \<Rightarrow> bool" where
  "containsLabel lbl [] = prefix_i lbl []"
| "containsLabel lbl (c # cs) = (prefix_i lbl (c # cs) \<or> containsLabel lbl cs)"

text \<open>\<open>captures k r\<close>: syntactically, every match of \<open>r\<close> passes through group \<open>k\<close>.\<close>

fun captures :: "nat \<Rightarrow> regex \<Rightarrow> bool" where
  "captures k (Group j r) = (j = k \<or> captures k r)"
| "captures k (Seq a b) = (captures k a \<or> captures k b)"
| "captures k (Alt a b) = (captures k a \<and> captures k b)"
| "captures k _ = False"














text \<open>The requests among the events of the remote strategy.\<close>

fun isRequest :: "event \<Rightarrow> bool" where
  "isRequest (Request m) = True"
| "isRequest (Sleep d) = False"



text \<open>A model service that is unreachable, with and without an API key.\<close>

definition envDown :: remoteEnv where
  "envDown =
     \<lparr>apiKey = Some (str ''key''),
      generateContent = (\<lambda>n m. Inl (Failure ''network'')),
      jsonParse = (\<lambda>t. None),
      random = (\<lambda>n. 0),
      cropImage = (\<lambda>img box. [])\<rparr>"

definition envNoKey :: remoteEnv where
  "envNoKey = envDown\<lparr>apiKey := None\<rparr>"

text \<open>An OCR engine that fails on every image.\<close>

definition ocrDown :: ocrEnv where
  "ocrDown =
     \<lparr>preprocessImage = (\<lambda>img. img),
      recognize = (\<lambda>img. Inl (Failure ''ocr'')),
      sortWords = (\<lambda>cmp ws. ws),
      cropImageOCR = (\<lambda>img box. [])\<rparr>"

text \<open>The pages whose tasks were started, in the order of their start.\<close>

fun startedPages :: "pageEvent list \<Rightarrow> nat list" where
  "startedPages [] = []"
| "startedPages (Started p # es) = p # startedPages es"
| "startedPages (Finished p # es) = startedPages es"

text \<open>
  A 10-page document in which every page but page 5 renders, a rendered page \<open>p\<close> yields
  \<open>p\<close> records, and within a batch the later page completes first.
\<close>

definition pdfTen :: pdfEnv where
  "pdfTen =
     \<lparr>getDocument = Inr 10,
      getPdfPageAsBase64 = (\<lambda>p. if p = 5 then Inl (Failure ''render'') else Inr (str ''img'')),
      extractPage = (\<lambda>img p photos. Inr (replicate p (blankVoter (str ''ABC1234567'')))),
      renderedAt = (\<lambda>p. p),
      finishedAt = (\<lambda>p. 100 - p)\<rparr>"

definition emptyState :: appState where
  "emptyState =
     \<lparr>app_voters = [],
      app_status = \<lparr>st_total = 0, st_current = 0, st_message = [], st_isProcessing = False\<rparr>,
      app_view = UPLOAD\<rparr>"

text \<open>
  Text that the tabular format carries unchanged. A cell written without quotes must not
  contain a quote, a comma or a line break and must have no white space at its ends; a
  cell written in quotes may contain commas.
\<close>

definition plainField :: "jsstring \<Rightarrow> bool" where
  "plainField f =
     (of_char CHR 0x22 \<notin> set f \<and> of_char CHR '','' \<notin> set f \<and> 10 \<notin> set f \<and> 13 \<notin> set f \<and>
      trim f = f)"

definition quotedField :: "jsstring \<Rightarrow> bool" where
  "quotedField f = (of_char CHR 0x22 \<notin> set f \<and> 10 \<notin> set f \<and> 13 \<notin> set f \<and> trim f = f)"

text \<open>
  A record whose text fields are such text, whose party, if any, is neither empty nor the
  word \<open>null\<close>, and whose page number is a natural number.
\<close>

definition exportable :: "voter \<Rightarrow> bool" where
  "exportable v =
     (plainField (sl_no v) \<and> plainField (epic_no v) \<and> quotedField (name_en v) \<and>
      quotedField (name_te v) \<and> quotedField (relative_name v) \<and> quotedField (house_no v) \<and>
      plainField (age v) \<and> plainField (gender v) \<and> quotedField (assembly_name v) \<and>
      quotedField (parliament_name v) \<and> quotedField (polling_station_no v) \<and>
      (case votedParty v of None \<Rightarrow> True
       | Some party \<Rightarrow> plainField party \<and> party \<noteq> [] \<and> party \<noteq> str ''null'') \<and>
      (case originalPage v of Some (Num n) \<Rightarrow> 0 \<le> n | _ \<Rightarrow> False))"


text \<open>The state the import leaves when it succeeds.\<close>

definition loadedState :: "source \<Rightarrow> voter list \<Rightarrow> appState \<Rightarrow> appState" where
  "loadedState source vs st =
     st\<lparr>app_voters := vs,
        app_status := \<lparr>st_total = 0, st_current = 0,
           st_message = (if source = API then str ''Extraction Complete!''
                         else str ''Data Loaded Successfully''),
           st_isProcessing = False\<rparr>,
        app_view := (if source = FILE \<or> source = HISTORY then DASHBOARD else app_view st)\<rparr>"


text \<open>
  A cell as written and what the parser collects from it: reading the cell, outside
  quotes, appends the content to \<open>current\<close> and ends outside quotes.
\<close>

abbreviation cellReads :: "jsstring \<Rightarrow> jsstring \<Rightarrow> bool" where
  "cellReads raw content \<equiv>
     (\<forall>rest result cur. parseLoop 44 (raw @ rest) result cur False
                          = parseLoop 44 rest result (cur @ content) False)"

section \<open>Properties\<close>

declare ends.simps(7,8) [simp del]

declare attempts.simps [simp del]

declare digitsOf.simps [simp del]

declare processBatch.simps [simp del]

declare chunks.simps [simp del]

subsection \<open>Facts about the matcher\<close>

lemma ends_Seq_iff:
  "st' \<in> set (ends n (Seq r1 r2) st) \<longleftrightarrow> (\<exists>m \<in> set (ends n r1 st). st' \<in> set (ends n r2 m))"
  by auto

lemma ends_Star_iff:
  "st' \<in> set (ends n (Star r) st) \<longleftrightarrow>
     st' = st \<or> (\<exists>m \<in> set (ends n r st). length (snd m) < length (snd st) \<and> st' \<in> set (ends n (Star r) m))"
  by (subst ends.simps) (auto split: if_splits)

lemma ends_Lazy_iff:
  "st' \<in> set (ends n (Lazy r) st) \<longleftrightarrow>
     st' = st \<or> (\<exists>m \<in> set (ends n r st). length (snd m) < length (snd st) \<and> st' \<in> set (ends n (Lazy r) m))"
  by (subst ends.simps) (auto split: if_splits)

lemma ends_suffix:
  "st' \<in> set (ends n r st) \<Longrightarrow> \<exists>p. snd st = p @ snd st'"
proof (induction n r st arbitrary: st' rule: ends.induct)
  case (1 n P st)
  then obtain a where "snd st = a # snd st'"
    by (cases "snd st") (auto split: if_splits)
  then have "snd st = [a] @ snd st'" by simp
  then show ?case by blast
next
  case (5 n r1 r2 st)
  from "5.prems" obtain m where m: "m \<in> set (ends n r1 st)" and s: "st' \<in> set (ends n r2 m)"
    unfolding ends_Seq_iff by blast
  from "5.IH"(1)[OF m] "5.IH"(2)[OF m s] show ?case by auto
next
  case (7 n r st)
  from "7.prems" consider "st' = st"
    | m where "m \<in> set (ends n r st)" "length (snd m) < length (snd st)"
        "st' \<in> set (ends n (Star r) m)"
    using ends_Star_iff[of st' n r st] by blast
  then show ?case
  proof cases
    case 1 then show ?thesis by simp
  next
    case (2 m)
    from "7.IH"(1)[OF 2(1)] "7.IH"(2)[OF 2] show ?thesis by auto
  qed
next
  case (8 n r st)
  from "8.prems" consider "st' = st"
    | m where "m \<in> set (ends n r st)" "length (snd m) < length (snd st)"
        "st' \<in> set (ends n (Lazy r) m)"
    using ends_Lazy_iff[of st' n r st] by blast
  then show ?case
  proof cases
    case 1 then show ?thesis by simp
  next
    case (2 m)
    from "8.IH"(1)[OF 2(1)] "8.IH"(2)[OF 2] show ?thesis by auto
  qed
next
  case (9 n k r st)
  then show ?case by auto
qed (auto split: if_splits)

lemma ends_caps_mono:
  "st' \<in> set (ends n r st) \<Longrightarrow> fst st k \<noteq> None \<Longrightarrow> fst st' k \<noteq> None"
proof (induction n r st arbitrary: st' rule: ends.induct)
  case (1 n P st)
  then show ?case by (auto split: list.splits if_splits)
next
  case (5 n r1 r2 st)
  from "5.prems" obtain m where m: "m \<in> set (ends n r1 st)" and s: "st' \<in> set (ends n r2 m)"
    unfolding ends_Seq_iff by blast
  from "5.IH"(1)[OF m "5.prems"(2)] "5.IH"(2)[OF m s] show ?case by auto
next
  case (7 n r st)
  from "7.prems" consider "st' = st"
    | m where "m \<in> set (ends n r st)" "length (snd m) < length (snd st)"
        "st' \<in> set (ends n (Star r) m)"
    using ends_Star_iff[of st' n r st] by blast
  then show ?case
  proof cases
    case 1 then show ?thesis using "7.prems" by simp
  next
    case (2 m)
    from "7.IH"(1)[OF 2(1) "7.prems"(2)] "7.IH"(2)[OF 2] show ?thesis by auto
  qed
next
  case (8 n r st)
  from "8.prems" consider "st' = st"
    | m where "m \<in> set (ends n r st)" "length (snd m) < length (snd st)"
        "st' \<in> set (ends n (Lazy r) m)"
    using ends_Lazy_iff[of st' n r st] by blast
  then show ?case
  proof cases
    case 1 then show ?thesis using "8.prems" by simp
  next
    case (2 m)
    from "8.IH"(1)[OF 2(1) "8.prems"(2)] "8.IH"(2)[OF 2] show ?thesis by auto
  qed
next
  case (9 n k r st)
  then show ?case by auto
qed (auto split: if_splits)

lemma ends_captures:
  "captures k r \<Longrightarrow> st' \<in> set (ends n r st) \<Longrightarrow> fst st' k \<noteq> None"
proof (induction r arbitrary: st st')
  case (Seq r1 r2)
  from Seq.prems(2) obtain m where m: "m \<in> set (ends n r1 st)" and s: "st' \<in> set (ends n r2 m)"
    unfolding ends_Seq_iff by blast
  from Seq.prems(1) have "captures k r1 \<or> captures k r2" by simp
  then show ?case
  proof
    assume "captures k r1"
    from Seq.IH(1)[OF this m] ends_caps_mono[OF s] show ?thesis by blast
  next
    assume "captures k r2"
    from Seq.IH(2)[OF this s] show ?thesis .
  qed
next
  case (Group j r)
  from Group.prems(2) obtain m where m: "m \<in> set (ends n r st)"
    and st': "st' = ((fst m)(j \<mapsto> take (length (snd st) - length (snd m)) (snd st)), snd m)"
    by auto
  show ?case
  proof (cases "j = k")
    case True
    with st' show ?thesis by simp
  next
    case False
    with Group.prems(1) have "captures k r" by simp
    from Group.IH[OF this m] False st' show ?thesis by simp
  qed
qed auto

lemma search_Some:
  "search n r s = Some m \<Longrightarrow>
   \<exists>s' st rest. (\<exists>p. s = p @ s') \<and> ends n r (Map.empty, s') = st # rest \<and>
     m = (n - length s', take (length s' - length (snd st)) s', fst st)"
proof (induction s)
  case Nil
  then show ?case by (auto split: list.splits)
next
  case (Cons a s)
  show ?case
  proof (cases "ends n r (Map.empty, a # s)")
    case Nil
    with Cons.prems have "search n r s = Some m" by simp
    from Cons.IH[OF this] show ?thesis by (metis append_Cons)
  next
    case (Cons st rest)
    with Cons.prems have "m = (n - length (a # s), take (length (a # s) - length (snd st)) (a # s), fst st)"
      by simp
    with Cons show ?thesis by blast
  qed
qed

lemma search_None:
  "(\<And>s'. \<exists>p. s = p @ s' \<Longrightarrow> ends n r (Map.empty, s') = []) \<Longrightarrow> search n r s = None"
proof (induction s)
  case Nil
  then show ?case by simp
next
  case (Cons a s)
  have "ends n r (Map.empty, a # s) = []" using Cons.prems[of "a # s"] by simp
  moreover have "search n r s = None"
  proof (rule Cons.IH)
    fix s' assume "\<exists>p. s = p @ s'"
    then have "\<exists>p. a # s = p @ s'" by (metis append_Cons)
    then show "ends n r (Map.empty, s') = []" by (rule Cons.prems)
  qed
  ultimately show ?case by simp
qed

lemma chr_i_accepts:
  "st' \<in> set (ends n (chr_i a) st) \<Longrightarrow>
   \<exists>c. snd st = c # snd st' \<and> toLowerAscii c = toLowerAscii (of_char a)"
  by (cases "snd st")
     (auto simp: chr_i_def toLowerAscii_def toUpperAscii_def upperAZ_def lowerAZ_def
           split: if_splits)

lemma lit_i_prefix:
  "st' \<in> set (ends n (lit_i lbl) st) \<Longrightarrow> prefix_i lbl (snd st)"
proof (induction lbl arbitrary: st)
  case Nil
  then show ?case by simp
next
  case (Cons a as)
  from Cons.prems obtain m where m: "m \<in> set (ends n (chr_i a) st)"
    and s: "st' \<in> set (ends n (lit_i as) m)"
    by auto
  from chr_i_accepts[OF m] obtain c where c: "snd st = c # snd m"
    "toLowerAscii c = toLowerAscii (of_char a)" by blast
  with Cons.IH[OF s] show ?case by simp
qed

lemma prefix_i_contains: "prefix_i lbl s \<Longrightarrow> containsLabel lbl s"
  by (cases s) auto

lemma containsLabel_append: "containsLabel lbl q \<Longrightarrow> containsLabel lbl (p @ q)"
  by (induction p) auto

lemma label_free_suffix:
  "\<not> containsLabel lbl s \<Longrightarrow> s = p @ q \<Longrightarrow> \<not> prefix_i lbl q"
  using containsLabel_append prefix_i_contains by blast

lemma Seq_empty:
  "(\<And>m. m \<in> set (ends n r1 st) \<Longrightarrow> ends n r2 m = []) \<Longrightarrow> ends n (Seq r1 r2) st = []"
  by simp

lemma label_Seq_empty:
  "\<not> prefix_i lbl (snd st) \<Longrightarrow> ends n (Seq (lit_i lbl) r) st = []"
  using lit_i_prefix by (intro Seq_empty) (auto simp del: ends.simps)


lemma jsmatch_None_label:
  assumes "\<not> containsLabel lbl s"
    and "\<And>st p. \<not> prefix_i lbl (snd st) \<Longrightarrow> s = p @ snd st \<Longrightarrow> ends (length s) r st = []"
  shows "jsmatch r s = None"
  unfolding jsmatch_def
proof (rule search_None)
  fix s' assume "\<exists>p. s = p @ s'"
  then obtain p where p: "s = p @ s'" by blast
  with assms(1) have "\<not> prefix_i lbl s'" by (rule label_free_suffix)
  then show "ends (length s) r (Map.empty, s') = []"
    using assms(2)[of "(Map.empty, s')" p] p by simp
qed

lemma NAME_no_label:
  assumes "\<not> containsLabel ''Name'' s" shows "jsmatch NAME s = None"
proof (rule jsmatch_None_label[OF assms])
  fix st :: mstate assume "\<not> prefix_i ''Name'' (snd st)"
  then show "ends (length s) NAME st = []"
    unfolding NAME_def by (rule label_Seq_empty)
qed

lemma RELATIVE_no_label:
  assumes "\<not> containsLabel ''Name'' s" shows "jsmatch RELATIVE s = None"
proof (rule jsmatch_None_label[OF assms])
  fix st :: mstate and p
  assume p: "s = p @ snd st"
  show "ends (length s) RELATIVE st = []"
    unfolding RELATIVE_def
  proof (rule Seq_empty, rule Seq_empty)
    fix m m' assume m: "m \<in> set (ends (length s)
        (alts [lit_i ''Father'', lit_i ''Husband'', lit_i ''Mother'', lit_i ''Guardian'']) st)"
      and m': "m' \<in> set (ends (length s) (Star (Atom aposClass)) m)"
    from ends_suffix[OF m] ends_suffix[OF m'] p obtain q where "s = q @ snd m'"
      by (metis append.assoc)
    with assms have "\<not> prefix_i ''Name'' (snd m')" by (rule label_free_suffix)
    then show "ends (length s) (Seq (lit_i ''Name'') (Seq (rplus (Atom sepClass))
         (Seq (Group 1 (lazy_plus dot))
            (alts [lit_i ''House'', lit_i ''Age'', lit_i ''Gender'', lit_i ''Sex'',
                   lit_i ''Elector'', lit_i ''Photo'', Eol])))) m' = []"
      by (rule label_Seq_empty)
  qed
qed

lemma jsmatch_group:
  assumes "jsmatch r s = Some m" and "captures k r"
  shows "\<exists>g. group m k = Inr g"
proof -
  from assms(1) obtain s' st rest where e: "ends (length s) r (Map.empty, s') = st # rest"
    and m: "m = (length s - length s', take (length s' - length (snd st)) s', fst st)"
    unfolding jsmatch_def by (blast dest: search_Some)
  from e have "st \<in> set (ends (length s) r (Map.empty, s'))" by simp
  from ends_captures[OF assms(2) this] m show ?thesis
    by (auto simp: group_def)
qed

lemma captures_patterns:
  "captures 1 NAME" "captures 1 RELATIVE" "captures 1 HOUSE" "captures 1 AGE_GENDER"
  "captures 2 AGE_GENDER" "captures 1 SL_NO" "captures 1 ASSEMBLY" "captures 1 POLLING"
  "captures 1 EPIC"
  by (simp_all add: NAME_def RELATIVE_def HOUSE_def AGE_GENDER_def SL_NO_def ASSEMBLY_def
        POLLING_def EPIC_def)

lemma trimmedGroup_eq:
  assumes "captures k r"
  shows "trimmedGroup (jsmatch r s) k d =
           Inr (case jsmatch r s of None \<Rightarrow> d | Some m \<Rightarrow> trim (the (snd (snd m) k)))"
proof (cases "jsmatch r s")
  case None
  then show ?thesis by (simp add: trimmedGroup_def)
next
  case (Some m)
  from jsmatch_group[OF Some assms] obtain g where "group m k = Inr g" by blast
  with Some show ?thesis
    by (auto simp: trimmedGroup_def bind_e_def group_def split: option.splits)
qed

lemma plainGroup_eq:
  assumes "captures k r"
  shows "plainGroup (jsmatch r s) k d =
           Inr (case jsmatch r s of None \<Rightarrow> d | Some m \<Rightarrow> the (snd (snd m) k))"
proof (cases "jsmatch r s")
  case None
  then show ?thesis by (simp add: plainGroup_def)
next
  case (Some m)
  from jsmatch_group[OF Some assms] obtain g where "group m k = Inr g" by blast
  with Some show ?thesis
    by (auto simp: plainGroup_def group_def split: option.splits)
qed

text \<open>
  The field extractor never fails, and each field is the default or the capture of its own
  pattern, trimmed where the source trims.
\<close>

lemma cardVoter_eq:
  "cardVoter assembly pollingStation pageNum photo epic line =
     Inr \<lparr>sl_no = (case jsmatch SL_NO line of None \<Rightarrow> [] | Some m \<Rightarrow> the (snd (snd m) 1)),
          epic_no = epic,
          name_en = (case jsmatch NAME line of None \<Rightarrow> str ''Unknown''
                     | Some m \<Rightarrow> trim (the (snd (snd m) 1))),
          name_te = [],
          relative_name = (case jsmatch RELATIVE line of None \<Rightarrow> []
                           | Some m \<Rightarrow> trim (the (snd (snd m) 1))),
          house_no = (case jsmatch HOUSE line of None \<Rightarrow> []
                      | Some m \<Rightarrow> trim (the (snd (snd m) 1))),
          age = (case jsmatch AGE_GENDER line of None \<Rightarrow> [] | Some m \<Rightarrow> the (snd (snd m) 1)),
          gender = (case jsmatch AGE_GENDER line of None \<Rightarrow> []
                    | Some m \<Rightarrow> the (snd (snd m) 2)),
          assembly_name = assembly, parliament_name = [],
          polling_station_no = pollingStation, photoBase64 = photo,
          originalPage = Some pageNum, isVoted = False, votedParty = None,
          timestamp = None\<rparr>"
  unfolding cardVoter_def Let_def
    plainGroup_eq[OF captures_patterns(6)] trimmedGroup_eq[OF captures_patterns(1)]
    trimmedGroup_eq[OF captures_patterns(2)] trimmedGroup_eq[OF captures_patterns(3)]
    plainGroup_eq[OF captures_patterns(4)] plainGroup_eq[OF captures_patterns(5)]
  by (simp add: bind_e_def)

text \<open>Evaluating a pattern on a given text.\<close>

lemma rep_numeral: "rep (numeral k) r = Seq r (rep (pred_numeral k) r)"
  by (simp add: numeral_eq_Suc)

lemmas regex_eval =
  jsmatch_def test_def NAME_def RELATIVE_def HOUSE_def AGE_GENDER_def EPIC_def SL_NO_def
  ASSEMBLY_def POLLING_def rplus_def lazy_plus_def dot_def chr_i_def chr_def rep_numeral
  str_def upperAZ_def lowerAZ_def digit09_def isWhiteSpace_def isLineTerminator_def
  sepClass_def colonClass_def aposClass_def houseClass_def letterClass_def
  toLowerAscii_def toUpperAscii_def ends.simps(7,8)

lemma search_first:
  "ends n r (Map.empty, s) = st # rest \<Longrightarrow>
   search n r s = Some (n - length s, take (length s - length (snd st)) s, fst st)"
  by simp

lemma Atom_consumes:
  "b \<in> set (ends n (Atom P) a) \<Longrightarrow> length (snd b) < length (snd a)"
  by (cases "snd a") (auto split: if_splits)

lemma ends_length_le:
  "b \<in> set (ends n r a) \<Longrightarrow> length (snd b) \<le> length (snd a)"
  using ends_suffix[of b n r a] by auto

lemma Seq_Atom_consumes:
  assumes "b \<in> set (ends n (Seq (Seq (Atom P) r) r') a)"
  shows "length (snd b) < length (snd a)"
proof -
  from assms obtain m2 where m2: "m2 \<in> set (ends n (Seq (Atom P) r) a)"
    and b: "b \<in> set (ends n r' m2)"
    using ends_Seq_iff[of b n "Seq (Atom P) r" r' a] by blast
  from m2 obtain m1 where m1: "m1 \<in> set (ends n (Atom P) a)" and m12: "m2 \<in> set (ends n r m1)"
    using ends_Seq_iff[of m2 n "Atom P" r a] by blast
  from Atom_consumes[OF m1] ends_length_le[OF m12] ends_length_le[OF b]
  show ?thesis by linarith
qed

lemma EPIC_consumes:
  assumes "st' \<in> set (ends n EPIC st)"
  shows "length (snd st') < length (snd st)"
proof -
  let ?A = "Seq (rep 3 (Atom upperAZ)) (rep 7 (Atom (\<lambda>c. c = of_char CHR ''O'' \<or> digit09 c)))"
  let ?B = "Seq (rep 3 (Atom upperAZ)) (Seq (Star (Atom upperAZ))
        (Seq (rep 5 (Atom digit09)) (Seq (Star (Atom digit09))
          (Star (Atom (\<lambda>c. upperAZ c \<or> digit09 c))))))"
  have "ends n EPIC st =
      map (\<lambda>st'. ((fst st')(1 \<mapsto> take (length (snd st) - length (snd st')) (snd st)), snd st'))
        (ends n ?A st @ ends n ?B st)"
    unfolding EPIC_def by (simp only: ends.simps(9) ends.simps(6))
  with assms have "st' \<in> (\<lambda>st'. ((fst st')(1 \<mapsto> take (length (snd st) - length (snd st')) (snd st)), snd st'))
      ` (set (ends n ?A st) \<union> set (ends n ?B st))"
    by (simp only: set_map set_append)
  then obtain m where mm: "m \<in> set (ends n ?A st) \<union> set (ends n ?B st)"
    and st': "st' = ((fst m)(1 \<mapsto> take (length (snd st) - length (snd m)) (snd st)), snd m)"
    by (rule imageE)
  from mm have mem: "m \<in> set (ends n ?A st) \<or> m \<in> set (ends n ?B st)"
    by (simp only: Un_iff)
  from st' have m: "snd m = snd st'" by simp
  have r3: "rep 3 (Atom upperAZ) = Seq (Atom upperAZ) (rep 2 (Atom upperAZ))"
    by (simp add: rep_numeral)
  from mem have "length (snd m) < length (snd st)"
    unfolding r3 using Seq_Atom_consumes by blast
  with m show ?thesis by simp
qed

lemma EPIC_match_nonempty:
  assumes "jsmatch EPIC t = Some (i, m, c)"
  shows "m \<noteq> []"
proof -
  from assms obtain s' st rest where p: "\<exists>p. t = p @ s'"
    and e: "ends (length t) EPIC (Map.empty, s') = st # rest"
    and m: "(i, m, c) = (length t - length s', take (length s' - length (snd st)) s', fst st)"
    unfolding jsmatch_def by (blast dest: search_Some)
  from e have "st \<in> set (ends (length t) EPIC (Map.empty, s'))" by simp
  from EPIC_consumes[OF this] have "length (snd st) < length s'" by simp
  with m show ?thesis by auto
qed

lemma replaceO_free: "of_char CHR ''O'' \<notin> set (replaceO s)"
  by (auto simp: replaceO_def)


text \<open>
  A token made of three capital letters and seven code units that are digits or the letter
  O matches the id pattern as a whole, and its normalised id is the token with every O
  turned into 0.
\<close>

lemma epic_three_seven:
  assumes "upperAZ l1" "upperAZ l2" "upperAZ l3" "length ds = 7"
    "\<forall>d \<in> set ds. d = of_char CHR ''O'' \<or> digit09 d"
  shows "epicOf (l1 # l2 # l3 # ds) = replaceO (l1 # l2 # l3 # ds)"
proof -
  from assms(4) obtain d1 d2 d3 d4 d5 d6 d7 where ds: "ds = [d1, d2, d3, d4, d5, d6, d7]"
    by (auto simp: eval_nat_numeral length_Suc_conv)
  let ?t = "l1 # l2 # l3 # ds"
  have "ends (length ?t) (Seq (rep 3 (Atom upperAZ))
          (rep 7 (Atom (\<lambda>c. c = of_char CHR ''O'' \<or> digit09 c)))) (Map.empty, ?t)
        = [(Map.empty, [])]"
    using assms(1,2,3,5) unfolding ds by (simp add: rep_numeral)
  then obtain st rest where "ends (length ?t) EPIC (Map.empty, ?t) = st # rest" "snd st = []"
    unfolding EPIC_def by simp
  from search_first[OF this(1)] this(2) show ?thesis
    by (simp add: epicOf_def jsmatch_def)
qed

lemma epic_three_seven_test:
  assumes "upperAZ l1" "upperAZ l2" "upperAZ l3" "length ds = 7"
    "\<forall>d \<in> set ds. d = of_char CHR ''O'' \<or> digit09 d"
  shows "test EPIC (l1 # l2 # l3 # ds)"
proof -
  from assms(4) obtain d1 d2 d3 d4 d5 d6 d7 where ds: "ds = [d1, d2, d3, d4, d5, d6, d7]"
    by (auto simp: eval_nat_numeral length_Suc_conv)
  let ?t = "l1 # l2 # l3 # ds"
  have "ends (length ?t) (Seq (rep 3 (Atom upperAZ))
          (rep 7 (Atom (\<lambda>c. c = of_char CHR ''O'' \<or> digit09 c)))) (Map.empty, ?t)
        = [(Map.empty, [])]"
    using assms(1,2,3,5) unfolding ds by (simp add: rep_numeral)
  then obtain st rest where "ends (length ?t) EPIC (Map.empty, ?t) = st # rest"
    unfolding EPIC_def by simp
  from search_first[OF this] show ?thesis
    by (simp add: test_def jsmatch_def)
qed

subsection \<open>Facts about the windows\<close>













subsection \<open>Facts about the retry loop and the failure paths\<close>

lemma attempts_success:
  assumes "attempt < maxRetries"
    and "attemptBody env img pg ph attempt (FALLBACK_MODELS ! (attempt mod 3)) = Inr vs"
  shows "attempts env img pg ph attempt tr =
           (tr @ [Request (FALLBACK_MODELS ! (attempt mod 3))], vs)"
  using assms by (subst attempts.simps) (simp add: FALLBACK_MODELS_def)

lemma attempts_retry:
  assumes "attempt + 1 < maxRetries"
    and "attemptBody env img pg ph attempt (FALLBACK_MODELS ! (attempt mod 3)) = Inl e"
  shows "attempts env img pg ph attempt tr =
           attempts env img pg ph (attempt + 1)
             (tr @ [Request (FALLBACK_MODELS ! (attempt mod 3)),
                    Sleep (baseDelay * real (attempt + 1) + random env (attempt + 1) * 500)])"
  using assms by (subst attempts.simps) (simp add: FALLBACK_MODELS_def)

lemma attempts_exhausted:
  assumes "attempt + 1 = maxRetries"
    and "attemptBody env img pg ph attempt (FALLBACK_MODELS ! (attempt mod 3)) = Inl e"
  shows "attempts env img pg ph attempt tr =
           (tr @ [Request (FALLBACK_MODELS ! (attempt mod 3))], [])"
  using assms by (subst attempts.simps) (simp add: FALLBACK_MODELS_def)



lemma attempts_all_fail:
  assumes "\<forall>n < maxRetries. \<forall>m. \<exists>e. attemptBody env img pg ph n m = Inl e"
  shows "attempt \<le> maxRetries \<Longrightarrow>
         snd (attempts env img pg ph attempt tr) = [] \<and>
         length (filter isRequest (fst (attempts env img pg ph attempt tr)))
           = length (filter isRequest tr) + (maxRetries - attempt)"
proof (induction "maxRetries - attempt" arbitrary: attempt tr)
  case 0
  then have "\<not> attempt < maxRetries" by simp
  then show ?case by (subst (1 2) attempts.simps) simp
next
  case (Suc k)
  then have lt: "attempt < maxRetries" by simp
  let ?m = "FALLBACK_MODELS ! (attempt mod length FALLBACK_MODELS)"
  from assms lt obtain e where e: "attemptBody env img pg ph attempt ?m = Inl e" by blast
  show ?case
  proof (cases "attempt + 1 \<ge> maxRetries")
    case True
    with lt e show ?thesis
      by (subst (1 2) attempts.simps) (simp add: Let_def)
  next
    case False
    then have "k = maxRetries - (attempt + 1)" "attempt + 1 \<le> maxRetries"
      using Suc.hyps(2) by simp_all
    from Suc.hyps(1)[OF this] False
    have "snd (attempts env img pg ph (attempt + 1)
                (tr @ [Request ?m] @ [Sleep (baseDelay * real (attempt + 1)
                                        + random env (attempt + 1) * 500)])) = [] \<and>
          length (filter isRequest (fst (attempts env img pg ph (attempt + 1)
                (tr @ [Request ?m] @ [Sleep (baseDelay * real (attempt + 1)
                                        + random env (attempt + 1) * 500)]))))
            = length (filter isRequest tr) + (maxRetries - attempt)"
      by simp
    with lt e False show ?thesis
      by (subst (1 2) attempts.simps) (simp add: Let_def)
  qed
qed

lemma headerField_total: "captures 1 r \<Longrightarrow> \<exists>h. headerField r t = Inr h"
  by (simp add: headerField_def trimmedGroup_eq)

lemma mapE_total: "(\<And>a. \<exists>b. f a = Inr b) \<Longrightarrow> \<exists>bs. mapE f as = Inr bs"
proof (induction as)
  case Nil
  then show ?case by simp
next
  case (Cons a as)
  from Cons.prems obtain b where "f a = Inr b" by blast
  moreover from Cons obtain bs where "mapE f as = Inr bs" by blast
  ultimately show ?case by (simp add: bind_e_def)
qed

text \<open>The \<open>try\<close> block of the OCR strategy fails only when the OCR engine does.\<close>

lemma ocrTry_fails:
  assumes "ocrTry env img pg ph = Inl e"
  shows "recognize env (str ''data:image/jpeg;base64,'' @ splitComma1 (preprocessImage env img))
           = Inl e"
proof (cases "recognize env (str ''data:image/jpeg;base64,'' @ splitComma1 (preprocessImage env img))")
  case (Inl e')
  with assms show ?thesis by (simp add: ocrTry_def Let_def bind_e_def)
next
  case (Inr words)
  obtain a where a: "headerField ASSEMBLY
      (joinWith (str '' '') (map word_text (filter (\<lambda>w. y1 (word_bbox w) < 150) words))) = Inr a"
    using headerField_total[OF captures_patterns(7)] by blast
  obtain p where p: "headerField POLLING
      (joinWith (str '' '') (map word_text (filter (\<lambda>w. y1 (word_bbox w) < 150) words))) = Inr p"
    using headerField_total[OF captures_patterns(8)] by blast
  have "\<exists>vs. mapE (\<lambda>epicWord.
                       (let cardRegion = cardRegionOCR (word_bbox epicWord);
                            fullCardText = joinWith (str '' '')
                              (map word_text (sortWords env compareOCR (cardWords words epicWord)));
                            photo = (if ph
                                     then Some (cropImageOCR env img (photoBox cardRegion))
                                     else None)
                        in cardVoter a p pg photo
                             (epicOf (word_text epicWord)) fullCardText))
                    (ocrAnchors words) = Inr vs"
    by (rule mapE_total) (simp add: Let_def cardVoter_eq)
  with assms Inr a p show ?thesis
    by (auto simp add: ocrTry_def Let_def bind_e_def)
qed

subsection \<open>Facts about the batch loop\<close>

lemma queue10: "drop 2 (map (\<lambda>i. i + 1) [0..<10]) = [3, 4, 5, 6, 7, 8, 9, 10 :: nat]"
  by (simp add: upt_rec)

lemma chunks_Nil [simp]: "chunks c [] = []"
  by (simp add: chunks.simps)

lemma chunks_step: "0 < c \<Longrightarrow> q \<noteq> [] \<Longrightarrow> chunks c q = take c q # chunks c (drop c q)"
  by (subst chunks.simps) simp

lemma chunks10: "chunks 2 [3, 4, 5, 6, 7, 8, 9, 10] = [[3, 4], [5, 6], [7, 8], [9, 10]]"
  by (simp add: chunks_step)

lemma concat_chunks: "0 < c \<Longrightarrow> concat (chunks c q) = q"
proof (induction c q rule: chunks.induct)
  case (1 c q)
  show ?case
  proof (cases "q = []")
    case True
    then show ?thesis by simp
  next
    case False
    with 1 show ?thesis by (simp add: chunks_step)
  qed
qed

lemma processBatch_chunks:
  "0 < c \<Longrightarrow>
   processBatch env tp c q run = Some (foldl (\<lambda>r b. runBatch env tp b r) run (chunks c q))"
proof (induction env tp c q run rule: processBatch.induct)
  case (1 env tp c q run)
  show ?case
  proof (cases "q = []")
    case True
    then show ?thesis by (subst processBatch.simps) simp
  next
    case False
    with 1 show ?thesis
      by (subst processBatch.simps) (simp add: chunks_step)
  qed
qed

lemma fold_runBatch:
  "allVoters (foldl (\<lambda>r b. runBatch env tp b r) run bs) =
     allVoters run @ concat (map (\<lambda>b. concat (map (pageVoters env) (sort_key (finishedAt env) b))) bs)"
  "run_trace (foldl (\<lambda>r b. runBatch env tp b r) run bs) =
     run_trace run @ concat (map (\<lambda>b. map Started b @ map Finished (sort_key (finishedAt env) b)) bs)"
  "app_voters (run_app (foldl (\<lambda>r b. runBatch env tp b r) run bs)) =
     app_voters (run_app run)
       @ concat (map (\<lambda>b. concat (map (pageVoters env) (sort_key (finishedAt env) b))) bs)"
  by (induction bs arbitrary: run; simp add: runBatch_def Let_def)+

lemma length_batch_yield:
  "length (concat (map f (sort_key k b))) = (\<Sum>p\<leftarrow>b. length (f p))"
proof -
  have "length (concat (map f (sort_key k b))) = sum_list (map (length \<circ> f) (sort_key k b))"
    by (simp add: length_concat comp_def)
  also have "\<dots> = sum_mset (image_mset (length \<circ> f) (mset (sort_key k b)))"
    by (simp add: sum_mset_sum_list[symmetric] del: mset_sort)
  also have "\<dots> = sum_list (map (length \<circ> f) b)"
    by (simp add: sum_mset_sum_list[symmetric])
  finally show ?thesis by (simp add: comp_def)
qed

lemma length_batches_yield:
  "length (concat (map (\<lambda>b. concat (map f (sort_key k b))) bs)) = (\<Sum>p\<leftarrow>concat bs. length (f p))"
  by (induction bs) (simp_all add: length_batch_yield)

lemma startedPages_append: "startedPages (xs @ ys) = startedPages xs @ startedPages ys"
  by (induction xs rule: startedPages.induct) auto

lemma startedPages_Started [simp]: "startedPages (map Started b) = b"
  by (induction b) auto

lemma startedPages_Finished [simp]: "startedPages (map Finished b) = []"
  by (induction b) auto

lemma startedPages_batches:
  "startedPages (concat (map (\<lambda>b. map Started b @ map Finished (g b)) bs)) = concat bs"
  by (induction bs) (simp_all add: startedPages_append)


lemma processPdfLocally_runs:
  assumes "getDocument env = Inr n" and "0 < c"
  shows "\<exists>run. processPdfLocally env c st = Some (Inr run) \<and>
     run_trace run = concat (map (\<lambda>b. map Started b @ map Finished (sort_key (finishedAt env) b))
                               (chunks c (drop 2 (map (\<lambda>i. i + 1) [0..<n])))) \<and>
     allVoters run = concat (map (\<lambda>b. concat (map (pageVoters env) (sort_key (finishedAt env) b)))
                               (chunks c (drop 2 (map (\<lambda>i. i + 1) [0..<n])))) \<and>
     app_voters (run_app run) = app_voters st @ allVoters run"
proof -
  let ?st1 = "st\<lparr>app_status := \<lparr>st_total = n, st_current = 0,
                          st_message = str ''Starting Local Extraction...'',
                          st_isProcessing = True\<rparr>\<rparr>"
  let ?run0 = "\<lparr>allVoters = [], run_app = ?st1, run_trace = []\<rparr>"
  let ?q = "drop 2 (map (\<lambda>i. i + 1) [0..<n])"
  let ?R = "foldl (\<lambda>r b. runBatch env n b r) ?run0 (chunks c ?q)"
  let ?run = "if allVoters ?R = []
              then ?R\<lparr>run_app := (run_app ?R)\<lparr>app_status :=
                      \<lparr>st_total = n, st_current = n,
                       st_message = str ''No voters found. Please try a different PDF or Quality.'',
                       st_isProcessing = False\<rparr>\<rparr>\<rparr>
              else ?R"
  have p: "processPdfLocally env c st = Some (Inr ?run)"
    by (simp add: processPdfLocally_def assms(1) Let_def processBatch_chunks[OF assms(2)])
  have "run_trace ?run = run_trace ?R" "allVoters ?run = allVoters ?R"
    "app_voters (run_app ?run) = app_voters (run_app ?R)"
    by simp_all
  with p show ?thesis
    by (intro exI[of _ ?run]) (simp only: fold_runBatch, simp)
qed

subsection \<open>Facts about the tabular format\<close>

lemma splitLines_nobreak:
  "10 \<notin> set l \<Longrightarrow> 13 \<notin> set l \<Longrightarrow> splitLines (l @ rest) cur = splitLines rest (cur @ l)"
  by (induction l arbitrary: cur) auto

lemma splitLines_join:
  "ls \<noteq> [] \<Longrightarrow> \<forall>l \<in> set ls. 10 \<notin> set l \<and> 13 \<notin> set l \<Longrightarrow>
   splitLines (joinWith [10] ls) cur = (cur @ hd ls) # tl ls"
proof (induction "[10::nat]" ls arbitrary: cur rule: joinWith.induct)
  case 1
  then show ?case by simp
next
  case (2 x)
  then show ?case using splitLines_nobreak[of x "[]" cur] by simp
next
  case (3 x y ys)
  have "splitLines (x @ [10] @ joinWith [10] (y # ys)) cur
          = splitLines ([10] @ joinWith [10] (y # ys)) (cur @ x)"
    using 3(3) by (intro splitLines_nobreak) auto
  also have "\<dots> = (cur @ x) # splitLines (joinWith [10] (y # ys)) []"
    by simp
  also have "splitLines (joinWith [10] (y # ys)) [] = ([] @ hd (y # ys)) # tl (y # ys)"
    using 3(3) by (intro 3(1)) auto
  finally show ?case by simp
qed

lemma trim_nonblank: "c \<in> set l \<Longrightarrow> \<not> isWhiteSpace c \<Longrightarrow> trim l \<noteq> []"
proof -
  assume c: "c \<in> set l" "\<not> isWhiteSpace c"
  then have "dropWhile isWhiteSpace l \<noteq> []" by (auto simp: dropWhile_eq_Nil_conv)
  moreover have "set (dropWhile isWhiteSpace l) \<subseteq> set l"
    by (meson set_dropWhileD subsetI)
  have "\<exists>d \<in> set (dropWhile isWhiteSpace l). \<not> isWhiteSpace d"
    using calculation hd_dropWhile[of isWhiteSpace l] hd_in_set by blast
  then have "dropWhile isWhiteSpace (rev (dropWhile isWhiteSpace l)) \<noteq> []"
    by (auto simp: dropWhile_eq_Nil_conv)
  then show ?thesis by (simp add: trim_def)
qed

lemma set_joinWith: "set (joinWith sep xs) \<subseteq> set sep \<union> \<Union> (set ` set xs)"
  by (induction sep xs rule: joinWith.induct) auto

lemma parse_plain:
  "of_char CHR 0x22 \<notin> set raw \<Longrightarrow> d \<notin> set raw \<Longrightarrow>
   parseLoop d (raw @ rest) result cur False = parseLoop d rest result (cur @ raw) False"
  by (induction raw arbitrary: cur) auto

lemma parse_inquotes:
  "of_char CHR 0x22 \<notin> set f \<Longrightarrow>
   parseLoop d (f @ rest) result cur True = parseLoop d rest result (cur @ f) True"
  by (induction f arbitrary: cur) auto

lemma parse_quoted:
  assumes "of_char CHR 0x22 \<notin> set f"
  shows "parseLoop d (quoted f @ rest) result cur False = parseLoop d rest result (cur @ f) False"
proof -
  have "concat (map (\<lambda>c. if c = of_char CHR 0x22 then [c, c] else [c]) f) = f"
    using assms by (induction f) auto
  then have q: "quoted f = of_char CHR 0x22 # f @ [of_char CHR 0x22]"
    by (simp add: quoted_def)
  show ?thesis unfolding q using parse_inquotes[OF assms] by simp
qed


lemma cellReads_plain: "of_char CHR 0x22 \<notin> set raw \<Longrightarrow> 44 \<notin> set raw \<Longrightarrow> cellReads raw raw"
  by (simp add: parse_plain)

lemma cellReads_quoted: "of_char CHR 0x22 \<notin> set f \<Longrightarrow> cellReads (quoted f) f"
  by (simp add: parse_quoted)






lemma digitsOf_digits: "digitsOf n \<noteq> [] \<and> (\<forall>c \<in> set (digitsOf n). digit09 c)"
proof (induction n rule: digitsOf.induct)
  case (1 n)
  show ?case
  proof (cases "n < 10")
    case True
    then show ?thesis by (subst (1 2) digitsOf.simps) (simp add: digit09_def)
  next
    case False
    with 1 have "digitsOf (n div 10) \<noteq> [] \<and> (\<forall>c \<in> set (digitsOf (n div 10)). digit09 c)"
      by simp
    moreover have "n mod 10 \<le> 9" by arith
    then have "digit09 (48 + n mod 10)" by (simp add: digit09_def)
    ultimately show ?thesis using False by (subst (1 2) digitsOf.simps) auto
  qed
qed

lemma digitVal_digit: "digit09 c \<Longrightarrow> digitVal c = Some (c - 48)"
  by (simp add: digitVal_def)







lemma numToString_chars:
  "c \<in> set (numToString x) \<Longrightarrow> c \<noteq> 34 \<and> c \<noteq> 44 \<and> c \<noteq> 10 \<and> c \<noteq> 13"
proof (cases x)
  case NaN
  assume "c \<in> set (numToString x)"
  with NaN show ?thesis by (auto simp: numToString_def str_def)
next
  case (Num i)
  assume "c \<in> set (numToString x)"
  with Num have "c = of_char CHR ''-'' \<or> (\<exists>n. c \<in> set (digitsOf n))"
    by (auto simp: numToString_def split: if_splits)
  then show ?thesis
  proof
    assume "c = of_char CHR ''-''"
    then show ?thesis by simp
  next
    assume "\<exists>n. c \<in> set (digitsOf n)"
    then obtain n where "c \<in> set (digitsOf n)" by blast
    with digitsOf_digits[of n] have "digit09 c" by blast
    then show ?thesis by (auto simp: digit09_def)
  qed
qed






lemma plainField_Nil: "plainField []"
  by (simp add: plainField_def trim_def)

lemma set_joinWith_sup: "x \<in> set xs \<Longrightarrow> set x \<subseteq> set (joinWith sep xs)"
  by (induction sep xs rule: joinWith.induct) auto

lemma quoted_set: "set (quoted f) = insert 34 (set f)"
  by (auto simp: quoted_def split: if_splits)

text \<open>The last cell of a row, the time stamp.\<close>

lemma timestamp_cell_chars:
  "c \<in> set (case ts of None \<Rightarrow> [] | Some NaN \<Rightarrow> []
              | Some (Num t) \<Rightarrow> if t = 0 then [] else numToString (Num t)) \<Longrightarrow>
   c \<noteq> 34 \<and> c \<noteq> 44 \<and> c \<noteq> 10 \<and> c \<noteq> 13"
  using numToString_chars by (auto split: option.splits jsnum.splits if_splits)


lemma YES_NO_chars:
  "c \<in> set (if b then str ''YES'' else str ''NO'') \<Longrightarrow> c \<noteq> 34 \<and> c \<noteq> 44 \<and> c \<noteq> 10 \<and> c \<noteq> 13"
  by (auto simp: str_def split: if_splits)





lemma header_line:
  "10 \<notin> set (joinWith (str '','') (map str headers))"
  "13 \<notin> set (joinWith (str '','') (map str headers))"
  "of_char CHR '';'' \<notin> set (joinWith (str '','') (map str headers))"
  "trim (joinWith (str '','') (map str headers)) \<noteq> []"
proof -
  have h: "hd (joinWith (str '','') (map str headers)) = 83"
    by (simp add: headers_def str_def)
  show "10 \<notin> set (joinWith (str '','') (map str headers))"
    "13 \<notin> set (joinWith (str '','') (map str headers))"
    "of_char CHR '';'' \<notin> set (joinWith (str '','') (map str headers))"
    by (simp_all add: headers_def str_def)
  have "83 \<in> set (joinWith (str '','') (map str headers))"
    by (simp add: headers_def str_def)
  then show "trim (joinWith (str '','') (map str headers)) \<noteq> []"
    by (rule trim_nonblank) (simp add: isWhiteSpace_def isLineTerminator_def)
qed

lemma row_line:
  assumes "exportable v"
  shows "10 \<notin> set (joinWith (str '','') (rowCells v))"
    "13 \<notin> set (joinWith (str '','') (rowCells v))"
    "trim (joinWith (str '','') (rowCells v)) \<noteq> []"
proof -
  have cells: "\<forall>x \<in> set (rowCells v). 10 \<notin> set x \<and> 13 \<notin> set x"
  proof -
    have pl: "plainField (sl_no v)" "plainField (epic_no v)" "plainField (age v)"
      "plainField (gender v)"
      using assms by (simp_all add: exportable_def)
    have plp: "plainField (case votedParty v of None \<Rightarrow> [] | Some p \<Rightarrow> p)"
      using assms plainField_Nil by (cases "votedParty v") (simp_all add: exportable_def)
    have qf: "quotedField (name_en v)" "quotedField (name_te v)" "quotedField (relative_name v)"
      "quotedField (house_no v)" "quotedField (assembly_name v)" "quotedField (parliament_name v)"
      "quotedField (polling_station_no v)"
      using assms by (simp_all add: exportable_def)
    have a: "plainField f \<Longrightarrow> 10 \<notin> set f \<and> 13 \<notin> set f" for f
      by (simp add: plainField_def)
    have b: "quotedField f \<Longrightarrow> 10 \<notin> set (quoted f) \<and> 13 \<notin> set (quoted f)" for f
      by (simp add: quotedField_def quoted_set)
    have yn: "10 \<notin> set (if isVoted v then str ''YES'' else str ''NO'') \<and>
              13 \<notin> set (if isVoted v then str ''YES'' else str ''NO'')"
      using YES_NO_chars[of _ "isVoted v"] by blast
    have ts: "10 \<notin> set (case timestamp v of None \<Rightarrow> [] | Some NaN \<Rightarrow> []
                          | Some (Num t) \<Rightarrow> if t = 0 then [] else numToString (Num t)) \<and>
              13 \<notin> set (case timestamp v of None \<Rightarrow> [] | Some NaN \<Rightarrow> []
                          | Some (Num t) \<Rightarrow> if t = 0 then [] else numToString (Num t))"
      using timestamp_cell_chars[of _ "timestamp v"] by blast
    have pg: "10 \<notin> set (case originalPage v of None \<Rightarrow> [] | Some n \<Rightarrow> numToString n) \<and>
         13 \<notin> set (case originalPage v of None \<Rightarrow> [] | Some n \<Rightarrow> numToString n)"
      using numToString_chars by (cases "originalPage v") auto
    note pl[THEN a] plp[THEN a] qf[THEN b] yn ts pg
    then show ?thesis
      unfolding rowCells_def by (simp del: One_nat_def)
  qed
  have sub: "set (joinWith (str '','') (rowCells v)) \<subseteq> set (str '','') \<union> \<Union> (set ` set (rowCells v))"
    by (rule set_joinWith)
  show "10 \<notin> set (joinWith (str '','') (rowCells v))"
    using sub cells by (auto simp: str_def)
  show "13 \<notin> set (joinWith (str '','') (rowCells v))"
    using sub cells by (auto simp: str_def)
  have "quoted (name_en v) \<in> set (rowCells v)" by (simp add: rowCells_def)
  from set_joinWith_sup[OF this, of "str '',''"]
  have "34 \<in> set (joinWith (str '','') (rowCells v))"
    by (auto simp: quoted_set)
  then show "trim (joinWith (str '','') (rowCells v)) \<noteq> []"
    by (rule trim_nonblank) (simp add: isWhiteSpace_def isLineTerminator_def)
qed

lemma csvLines_export:
  assumes "\<forall>v \<in> set vs. exportable v"
  shows "csvLines (generateCSVContent vs) =
           joinWith (str '','') (map str headers) # map (\<lambda>v. joinWith (str '','') (rowCells v)) vs"
proof -
  let ?ls = "joinWith (str '','') (map str headers) # map (\<lambda>v. joinWith (str '','') (rowCells v)) vs"
  have nb: "\<forall>l \<in> set ?ls. 10 \<notin> set l \<and> 13 \<notin> set l"
    using assms header_line(1,2) row_line(1,2) by auto
  have blank: "\<forall>l \<in> set ?ls. length (trim l) > 0"
    using assms header_line(4) row_line(3) by auto
  have "splitLines (joinWith [10] ?ls) [] = ([] @ hd ?ls) # tl ?ls"
    using nb by (intro splitLines_join) auto
  then have "splitLines (joinWith [10] ?ls) [] = ?ls" by simp
  moreover have "filter (\<lambda>line. length (trim line) > 0) ?ls = ?ls"
    using blank by (intro filter_True) 
  ultimately show ?thesis
    by (simp add: csvLines_def generateCSVContent_def BOM_def str_def Let_def)
qed




text \<open>
  A quote inside a quoted cell is written doubled by the export, and the parser of the
  import, which never adds a quote to \<open>current\<close>, drops both.
\<close>

lemma quote_dropped:
  "parseCSVLine (joinWith (str '','') [str ''7'', quoted [65, 34, 66]]) 44 = [str ''7'', [65, 66]]"
  by (simp add: parseCSVLine_def quoted_def str_def finishField_def stripOuterQuotes_def
        trim_def isWhiteSpace_def isLineTerminator_def)

subsection \<open>Poll marking\<close>

text \<open>
  Claim C9. \<open>updateVoter\<close> keeps the length of the stored collection, puts the updated
  record at every position whose record has the updated record's \<open>epic_no\<close>, and leaves
  every position with another \<open>epic_no\<close> as it was. So when several stored records
  share that \<open>epic_no\<close> (it may be empty or duplicated after extraction), all of them
  are overwritten by one update: the number of copies of the updated record afterwards is
  at least the number of stored records with its \<open>epic_no\<close>.
\<close>

theorem updateVoter_frame:
  "length (updateVoter u vs) = length vs \<and>
   (\<forall>i < length vs.
      (epic_no (vs ! i) = epic_no u \<longrightarrow> updateVoter u vs ! i = u) \<and>
      (epic_no (vs ! i) \<noteq> epic_no u \<longrightarrow> updateVoter u vs ! i = vs ! i)) \<and>
   length (filter (\<lambda>v. epic_no v = epic_no u) vs) \<le> count_list (updateVoter u vs) u"
proof -
  have "length (filter (\<lambda>v. epic_no v = epic_no u) vs) \<le> count_list (updateVoter u vs) u"
    unfolding updateVoter_def by (induction vs) auto
  then show ?thesis
    by (simp add: updateVoter_def)
qed

text \<open>
  Two stored records share the id \<open>ABC1234567\<close>, a third has another id: marking one
  voter as having voted overwrites both records with that id and not the third.
\<close>

theorem updateVoter_frame_witness:
  "length (updateVoter ((blankVoter (str ''ABC1234567''))\<lparr>isVoted := True\<rparr>)
     [blankVoter (str ''ABC1234567''), blankVoter (str ''XYZ7654321''),
      (blankVoter (str ''ABC1234567''))\<lparr>sl_no := str ''7''\<rparr>]) = 3 \<and>
   updateVoter ((blankVoter (str ''ABC1234567''))\<lparr>isVoted := True\<rparr>)
     [blankVoter (str ''ABC1234567''), blankVoter (str ''XYZ7654321''),
      (blankVoter (str ''ABC1234567''))\<lparr>sl_no := str ''7''\<rparr>] ! 0
     = (blankVoter (str ''ABC1234567''))\<lparr>isVoted := True\<rparr> \<and>
   updateVoter ((blankVoter (str ''ABC1234567''))\<lparr>isVoted := True\<rparr>)
     [blankVoter (str ''ABC1234567''), blankVoter (str ''XYZ7654321''),
      (blankVoter (str ''ABC1234567''))\<lparr>sl_no := str ''7''\<rparr>] ! 1
     = blankVoter (str ''XYZ7654321'') \<and>
   updateVoter ((blankVoter (str ''ABC1234567''))\<lparr>isVoted := True\<rparr>)
     [blankVoter (str ''ABC1234567''), blankVoter (str ''XYZ7654321''),
      (blankVoter (str ''ABC1234567''))\<lparr>sl_no := str ''7''\<rparr>] ! 2
     = (blankVoter (str ''ABC1234567''))\<lparr>isVoted := True\<rparr>"
  (is "length (updateVoter ?u ?vs) = 3 \<and> _")
proof -
  have frame: "length (updateVoter ?u ?vs) = length ?vs"
    "\<forall>i < length ?vs.
      (epic_no (?vs ! i) = epic_no ?u \<longrightarrow> updateVoter ?u ?vs ! i = ?u) \<and>
      (epic_no (?vs ! i) \<noteq> epic_no ?u \<longrightarrow> updateVoter ?u ?vs ! i = ?vs ! i)"
    using updateVoter_frame [of ?u ?vs] by blast+
  have e0: "epic_no (?vs ! 0) = epic_no ?u" and e2: "epic_no (?vs ! 2) = epic_no ?u"
    and e1: "epic_no (?vs ! 1) \<noteq> epic_no ?u"
    by (simp_all add: blankVoter_def str_def)
  have "updateVoter ?u ?vs ! 0 = ?u" using frame(2) e0 by simp
  moreover have "updateVoter ?u ?vs ! 1 = ?vs ! 1" using frame(2) e1 by simp
  moreover have "updateVoter ?u ?vs ! 2 = ?u" using frame(2) e2 by simp
  moreover have "length (updateVoter ?u ?vs) = 3" using frame(1) by simp
  ultimately show ?thesis by simp
qed

subsection \<open>The field extractor\<close>

text \<open>
  Claim C10. A flattened card text in which the label \<open>Name\<close> occurs nowhere, in any
  letter case, gives a record (the field extractor does not fail) whose \<open>name_en\<close> is
  \<open>Unknown\<close> and whose \<open>relative_name\<close> is empty; and each of the other extracted
  fields whose pattern does not match is the empty string.
\<close>

theorem no_name_label_unknown:
  assumes "\<not> containsLabel ''Name'' line"
  shows "\<exists>v. cardVoter assembly pollingStation pageNum photo epic line = Inr v \<and>
           name_en v = str ''Unknown'' \<and> relative_name v = [] \<and>
           (jsmatch HOUSE line = None \<longrightarrow> house_no v = []) \<and>
           (jsmatch AGE_GENDER line = None \<longrightarrow> age v = [] \<and> gender v = []) \<and>
           (jsmatch SL_NO line = None \<longrightarrow> sl_no v = [])"
proof -
  note n = NAME_no_label[OF assms] and r = RELATIVE_no_label[OF assms]
  show ?thesis
    unfolding cardVoter_eq n r by (intro exI conjI refl) auto
qed

text \<open>
  The card text \<open>Elector Photo\<close> has no name label, no house number, no age, no gender
  and no serial number.
\<close>

theorem no_name_label_unknown_witness:
  "\<not> containsLabel ''Name'' (str ''Elector Photo'') \<and>
   (\<exists>v. cardVoter [] [] (Num 3) None (str ''ABC1234567'') (str ''Elector Photo'') = Inr v \<and>
        name_en v = str ''Unknown'' \<and> relative_name v = [] \<and> house_no v = [] \<and>
        age v = [] \<and> gender v = [] \<and> sl_no v = [])"
proof -
  have free: "\<not> containsLabel ''Name'' (str ''Elector Photo'')"
    by (simp add: str_def toLowerAscii_def upperAZ_def)
  have house: "jsmatch HOUSE (str ''Elector Photo'') = None"
    by (simp add: regex_eval)
  have ag: "jsmatch AGE_GENDER (str ''Elector Photo'') = None"
    by (simp add: regex_eval)
  have sl: "jsmatch SL_NO (str ''Elector Photo'') = None"
    by (simp add: regex_eval)
  have "\<exists>v. cardVoter [] [] (Num 3) None (str ''ABC1234567'') (str ''Elector Photo'') = Inr v \<and>
           name_en v = str ''Unknown'' \<and> relative_name v = [] \<and>
           (jsmatch HOUSE (str ''Elector Photo'') = None \<longrightarrow> house_no v = []) \<and>
           (jsmatch AGE_GENDER (str ''Elector Photo'') = None \<longrightarrow> age v = [] \<and> gender v = []) \<and>
           (jsmatch SL_NO (str ''Elector Photo'') = None \<longrightarrow> sl_no v = [])"
    by (rule no_name_label_unknown[OF free])
  then obtain v where
    "cardVoter [] [] (Num 3) None (str ''ABC1234567'') (str ''Elector Photo'') = Inr v"
    "name_en v = str ''Unknown''" "relative_name v = []"
    "jsmatch HOUSE (str ''Elector Photo'') = None \<longrightarrow> house_no v = []"
    "jsmatch AGE_GENDER (str ''Elector Photo'') = None \<longrightarrow> age v = [] \<and> gender v = []"
    "jsmatch SL_NO (str ''Elector Photo'') = None \<longrightarrow> sl_no v = []"
    by (elim exE conjE)
  with house ag sl
  have "cardVoter [] [] (Num 3) None (str ''ABC1234567'') (str ''Elector Photo'') = Inr v \<and>
        name_en v = str ''Unknown'' \<and> relative_name v = [] \<and> house_no v = [] \<and>
        age v = [] \<and> gender v = [] \<and> sl_no v = []"
    by (simp only: simp_thms)
  then have "\<exists>v. cardVoter [] [] (Num 3) None (str ''ABC1234567'') (str ''Elector Photo'') = Inr v \<and>
        name_en v = str ''Unknown'' \<and> relative_name v = [] \<and> house_no v = [] \<and>
        age v = [] \<and> gender v = [] \<and> sl_no v = []" by (rule exI)
  with free show ?thesis by (rule conjI)
qed

text \<open>
  Claim C4. For every token text that matches the id pattern, the normalised id
  \<open>epic_no\<close> is the matched id, which is not empty, with every letter O replaced by the
  digit 0 and every other code unit kept, so no O is left in it; the record of the card
  carries this id, while its name fields are the captures of the name patterns on the card
  text, only trimmed: the replacement does not touch them. In particular a token of three
  capital letters followed by seven code units that are digits or the letter O matches
  the pattern, its normalised id is the whole token with every O turned into 0, and the
  digit segment of that id consists of digits only.
\<close>

theorem epic_O_replaced:
  "(test EPIC t \<longrightarrow>
      (\<exists>i m c. jsmatch EPIC t = Some (i, m, c) \<and> m \<noteq> [] \<and>
           epicOf t = map (\<lambda>u. if u = of_char CHR ''O'' then of_char CHR ''0'' else u) m \<and>
           of_char CHR ''O'' \<notin> set (epicOf t) \<and>
           (\<exists>v. cardVoter assembly pollingStation pageNum photo (epicOf t) line = Inr v \<and>
                epic_no v = epicOf t \<and>
                name_en v = (case jsmatch NAME line of None \<Rightarrow> str ''Unknown''
                             | Some r \<Rightarrow> trim (the (snd (snd r) 1))) \<and>
                relative_name v = (case jsmatch RELATIVE line of None \<Rightarrow> []
                                   | Some r \<Rightarrow> trim (the (snd (snd r) 1)))))) \<and>
   (upperAZ l1 \<and> upperAZ l2 \<and> upperAZ l3 \<and> length ds = 7 \<and>
    (\<forall>d \<in> set ds. d = of_char CHR ''O'' \<or> digit09 d) \<longrightarrow>
      test EPIC (l1 # l2 # l3 # ds) \<and>
      epicOf (l1 # l2 # l3 # ds) =
        replaceO [l1, l2, l3]
        @ map (\<lambda>d. if d = of_char CHR ''O'' then of_char CHR ''0'' else d) ds \<and>
      (\<forall>d \<in> set (drop 3 (epicOf (l1 # l2 # l3 # ds))). digit09 d))"
proof (intro conjI impI)
  assume t: "test EPIC t"
  then obtain i m c where j: "jsmatch EPIC t = Some (i, m, c)"
    by (auto simp: test_def)
  from EPIC_match_nonempty[OF j] have "m \<noteq> []" .
  moreover from j have "epicOf t = map (\<lambda>u. if u = of_char CHR ''O'' then of_char CHR ''0'' else u) m"
    by (simp add: epicOf_def replaceO_def)
  moreover have "of_char CHR ''O'' \<notin> set (epicOf t)"
    using j replaceO_free[of m] by (simp add: epicOf_def)
  ultimately show "\<exists>i m c. jsmatch EPIC t = Some (i, m, c) \<and> m \<noteq> [] \<and>
           epicOf t = map (\<lambda>u. if u = of_char CHR ''O'' then of_char CHR ''0'' else u) m \<and>
           of_char CHR ''O'' \<notin> set (epicOf t) \<and>
           (\<exists>v. cardVoter assembly pollingStation pageNum photo (epicOf t) line = Inr v \<and>
                epic_no v = epicOf t \<and>
                name_en v = (case jsmatch NAME line of None \<Rightarrow> str ''Unknown''
                             | Some r \<Rightarrow> trim (the (snd (snd r) 1))) \<and>
                relative_name v = (case jsmatch RELATIVE line of None \<Rightarrow> []
                                   | Some r \<Rightarrow> trim (the (snd (snd r) 1))))"
    using j by (simp add: cardVoter_eq)
next
  assume a: "upperAZ l1 \<and> upperAZ l2 \<and> upperAZ l3 \<and> length ds = 7 \<and>
    (\<forall>d \<in> set ds. d = of_char CHR ''O'' \<or> digit09 d)"
  then show "test EPIC (l1 # l2 # l3 # ds)"
    by (intro epic_three_seven_test) simp_all
next
  assume a: "upperAZ l1 \<and> upperAZ l2 \<and> upperAZ l3 \<and> length ds = 7 \<and>
    (\<forall>d \<in> set ds. d = of_char CHR ''O'' \<or> digit09 d)"
  then have "epicOf (l1 # l2 # l3 # ds) = replaceO (l1 # l2 # l3 # ds)"
    by (intro epic_three_seven) simp_all
  then show e: "epicOf (l1 # l2 # l3 # ds) =
        replaceO [l1, l2, l3]
        @ map (\<lambda>d. if d = of_char CHR ''O'' then of_char CHR ''0'' else d) ds"
    by (simp add: replaceO_def)
next
  assume a: "upperAZ l1 \<and> upperAZ l2 \<and> upperAZ l3 \<and> length ds = 7 \<and>
    (\<forall>d \<in> set ds. d = of_char CHR ''O'' \<or> digit09 d)"
  then have "epicOf (l1 # l2 # l3 # ds) = replaceO (l1 # l2 # l3 # ds)"
    by (intro epic_three_seven) simp_all
  then have "drop 3 (epicOf (l1 # l2 # l3 # ds))
               = map (\<lambda>d. if d = of_char CHR ''O'' then of_char CHR ''0'' else d) ds"
    by (simp add: replaceO_def)
  with a show "\<forall>d \<in> set (drop 3 (epicOf (l1 # l2 # l3 # ds))). digit09 d"
    by (auto simp: digit09_def)
qed

text \<open>
  The raw id \<open>ABC12O4567\<close> becomes \<open>ABC1204567\<close>, and the name \<open>OM\<close> on the same
  card keeps its O.
\<close>

theorem epic_O_replaced_witness:
  "test EPIC (str ''ABC12O4567'') \<and> epicOf (str ''ABC12O4567'') = str ''ABC1204567'' \<and>
   (\<exists>v. cardVoter [] [] (Num 3) None (epicOf (str ''ABC12O4567'')) (str ''Name: OM Age: 3'') = Inr v \<and>
        epic_no v = str ''ABC1204567'' \<and> name_en v = str ''OM'')"
proof -
  note inst = epic_O_replaced[of "str ''ABC12O4567''" "[]" "[]" "Num 3" None
      "str ''Name: OM Age: 3''" 65 66 67 "[49, 50, 79, 52, 53, 54, 55]"]
  have shape: "upperAZ 65 \<and> upperAZ 66 \<and> upperAZ 67 \<and> length [49, 50, 79, 52, 53, 54, 55 :: nat] = 7 \<and>
    (\<forall>d \<in> set [49, 50, 79, 52, 53, 54, 55 :: nat]. d = of_char CHR ''O'' \<or> digit09 d)"
    by (simp add: upperAZ_def digit09_def)
  have s: "str ''ABC12O4567'' = 65 # 66 # 67 # [49, 50, 79, 52, 53, 54, 55]"
    by (simp add: str_def)
  from inst[THEN conjunct2] shape
  have "test EPIC (65 # 66 # 67 # [49, 50, 79, 52, 53, 54, 55]) \<and>
      epicOf (65 # 66 # 67 # [49, 50, 79, 52, 53, 54, 55]) =
        replaceO [65, 66, 67]
        @ map (\<lambda>d. if d = of_char CHR ''O'' then of_char CHR ''0'' else d) [49, 50, 79, 52, 53, 54, 55] \<and>
      (\<forall>d \<in> set (drop 3 (epicOf (65 # 66 # 67 # [49, 50, 79, 52, 53, 54, 55]))). digit09 d)"
    by (rule mp)
  then have t: "test EPIC (str ''ABC12O4567'')"
    and e': "epicOf (str ''ABC12O4567'') = str ''ABC1204567''"
    unfolding s[symmetric] by (simp_all add: replaceO_def str_def)
  have n: "(case jsmatch NAME (str ''Name: OM Age: 3'') of None \<Rightarrow> str ''Unknown''
            | Some r \<Rightarrow> trim (the (snd (snd r) 1))) = str ''OM''"
    by (simp add: regex_eval trim_def)
  from inst[THEN conjunct1] t
  have "\<exists>i m c. jsmatch EPIC (str ''ABC12O4567'') = Some (i, m, c) \<and> m \<noteq> [] \<and>
           epicOf (str ''ABC12O4567'') = map (\<lambda>u. if u = of_char CHR ''O'' then of_char CHR ''0'' else u) m \<and>
           of_char CHR ''O'' \<notin> set (epicOf (str ''ABC12O4567'')) \<and>
           (\<exists>v. cardVoter [] [] (Num 3) None (epicOf (str ''ABC12O4567'')) (str ''Name: OM Age: 3'') = Inr v \<and>
                epic_no v = epicOf (str ''ABC12O4567'') \<and>
                name_en v = (case jsmatch NAME (str ''Name: OM Age: 3'') of None \<Rightarrow> str ''Unknown''
                             | Some r \<Rightarrow> trim (the (snd (snd r) 1))) \<and>
                relative_name v = (case jsmatch RELATIVE (str ''Name: OM Age: 3'') of None \<Rightarrow> []
                                   | Some r \<Rightarrow> trim (the (snd (snd r) 1))))"
    by (rule mp)
  then obtain v where v: "cardVoter [] [] (Num 3) None (epicOf (str ''ABC12O4567'')) (str ''Name: OM Age: 3'') = Inr v"
      "epic_no v = epicOf (str ''ABC12O4567'')"
      "name_en v = (case jsmatch NAME (str ''Name: OM Age: 3'') of None \<Rightarrow> str ''Unknown''
                             | Some r \<Rightarrow> trim (the (snd (snd r) 1)))"
    by (elim exE conjE)
  from v(2) have "epic_no v = str ''ABC1204567''" unfolding e' .
  moreover from v(3) have "name_en v = str ''OM''" unfolding n .
  ultimately have "\<exists>v. cardVoter [] [] (Num 3) None (epicOf (str ''ABC12O4567'')) (str ''Name: OM Age: 3'') = Inr v \<and>
        epic_no v = str ''ABC1204567'' \<and> name_en v = str ''OM''"
    using v(1) by (intro exI[of _ v] conjI)
  with t e' show ?thesis by (intro conjI)
qed


subsection \<open>The region clusterer\<close>







subsection \<open>The remote strategy\<close>



text \<open>
  Claim C5, as the code has it. The image-OCR strategy never throws: it always returns a
  list, the empty one when its \<open>try\<close> block fails (lemma \<open>ocrTry_fails\<close>: that is,
  when the OCR engine fails). The remote strategy, when an API key is configured, never
  throws either: it always returns a list, and when every one of its 6 attempts fails it
  returns the empty list after exactly 6 requests.
\<close>

theorem strategies_never_throw:
  "(\<exists>voters. extractVotersFromImageOCR oenv img page incl = Inr voters) \<and>
   ((\<exists>e. ocrTry oenv img page incl = Inl e) \<longrightarrow>
      extractVotersFromImageOCR oenv img page incl = Inr []) \<and>
   (apiKey env \<noteq> None \<and> apiKey env \<noteq> Some [] \<longrightarrow>
      (\<exists>trace voters. extractVotersFromImage env img page incl = (trace, Inr voters)) \<and>
      ((\<forall>n < maxRetries. \<forall>m. \<exists>e. attemptBody env img page incl n m = Inl e) \<longrightarrow>
         (\<exists>trace. extractVotersFromImage env img page incl = (trace, Inr []) \<and>
                  length (filter isRequest trace) = maxRetries)))"
proof (intro conjI impI)
  show "\<exists>voters. extractVotersFromImageOCR oenv img page incl = Inr voters"
    by (simp add: extractVotersFromImageOCR_def split: sum.splits)
next
  assume "\<exists>e. ocrTry oenv img page incl = Inl e"
  then show "extractVotersFromImageOCR oenv img page incl = Inr []"
    by (auto simp: extractVotersFromImageOCR_def)
next
  assume "apiKey env \<noteq> None \<and> apiKey env \<noteq> Some []"
  then show "\<exists>trace voters. extractVotersFromImage env img page incl = (trace, Inr voters)"
    by (simp add: extractVotersFromImage_def split: prod.splits)
next
  assume k: "apiKey env \<noteq> None \<and> apiKey env \<noteq> Some []"
    and f: "\<forall>n < maxRetries. \<forall>m. \<exists>e. attemptBody env img page incl n m = Inl e"
  from attempts_all_fail[OF f, of 0 "[]"]
  have "snd (attempts env img page incl 0 []) = []"
    "length (filter isRequest (fst (attempts env img page incl 0 []))) = maxRetries"
    by simp_all
  with k show "\<exists>trace. extractVotersFromImage env img page incl = (trace, Inr []) \<and>
                  length (filter isRequest trace) = maxRetries"
    by (cases "attempts env img page incl 0 []") (simp add: extractVotersFromImage_def)
qed

text \<open>An OCR engine and a model service that always fail: both strategies return \<open>[]\<close>.\<close>

theorem strategies_never_throw_witness:
  "extractVotersFromImageOCR ocrDown (str ''img'') (Num 3) False = Inr [] \<and>
   (\<exists>trace. extractVotersFromImage envDown (str ''img'') (Num 3) False = (trace, Inr []) \<and>
            length (filter isRequest trace) = 6)"
proof -
  have o: "\<exists>e. ocrTry ocrDown (str ''img'') (Num 3) False = Inl e"
    by (simp add: ocrTry_def ocrDown_def bind_e_def Let_def)
  have k: "apiKey envDown \<noteq> None \<and> apiKey envDown \<noteq> Some []"
    by (simp add: envDown_def str_def)
  have f: "\<forall>n < maxRetries. \<forall>m. \<exists>e. attemptBody envDown (str ''img'') (Num 3) False n m = Inl e"
    by (simp add: attemptBody_def envDown_def bind_e_def)
  note t = strategies_never_throw[of ocrDown "str ''img''" "Num 3" False envDown]
  from t[THEN conjunct2, THEN conjunct1] o
  have "extractVotersFromImageOCR ocrDown (str ''img'') (Num 3) False = Inr []"
    by (rule mp)
  moreover from t[THEN conjunct2, THEN conjunct2] k
  have "(\<exists>trace voters. extractVotersFromImage envDown (str ''img'') (Num 3) False
            = (trace, Inr voters)) \<and>
      ((\<forall>n < maxRetries. \<forall>m. \<exists>e. attemptBody envDown (str ''img'') (Num 3) False n m = Inl e) \<longrightarrow>
         (\<exists>trace. extractVotersFromImage envDown (str ''img'') (Num 3) False = (trace, Inr []) \<and>
                  length (filter isRequest trace) = maxRetries))"
    by (rule mp)
  from this[THEN conjunct2] f
  have "\<exists>trace. extractVotersFromImage envDown (str ''img'') (Num 3) False = (trace, Inr []) \<and>
            length (filter isRequest trace) = maxRetries"
    by (rule mp)
  ultimately show ?thesis by (simp add: maxRetries_def)
qed

text \<open>
  Claim C5 as stated fails: without an API key the remote strategy throws, before its first
  attempt and outside its \<open>try\<close> block.
\<close>

theorem remote_throws_counterexample:
  "extractVotersFromImage envNoKey (str ''img'') (Num 3) False =
     ([], Inl (Error ''API Key is missing. Please check your environment configuration.''))"
  by (simp add: extractVotersFromImage_def envNoKey_def envDown_def)


subsection \<open>The local fallback coordinator\<close>

text \<open>
  Claim C3. For every document and every concurrency above 0 the coordinator returns, the
  pages whose tasks it starts are the pages from 3 on, in order (pages 1 and 2 are skipped
  whatever the document), and the number of voters collected is the sum of what the
  pages yield. For a 10-page document with concurrency 2 the events are those of four
  batches, (3, 4), (5, 6), (7, 8) and (9, 10), one after the other: both tasks of a batch
  are started, both complete, in either order, and only then the next batch starts; the
  number of voters is the sum of the yields of the pages 3 to 10 whatever the order of
  completion (the completion moments \<open>finishedAt\<close> are arbitrary), and the stored
  collection is extended by exactly the voters collected.
\<close>

theorem local_fallback_batches:
  "(getDocument env = Inr n \<and> 0 < c \<longrightarrow>
      (\<exists>run. processPdfLocally env c st = Some (Inr run) \<and>
             startedPages (run_trace run) = drop 2 (map (\<lambda>i. i + 1) [0..<n]) \<and>
             length (allVoters run)
               = (\<Sum>p\<leftarrow>drop 2 (map (\<lambda>i. i + 1) [0..<n]). length (pageVoters env p)))) \<and>
   (getDocument env = Inr 10 \<longrightarrow>
      (\<exists>run. processPdfLocally env 2 st = Some (Inr run) \<and>
             run_trace run =
               map Started [3, 4] @ map Finished (sort_key (finishedAt env) [3, 4]) @
               map Started [5, 6] @ map Finished (sort_key (finishedAt env) [5, 6]) @
               map Started [7, 8] @ map Finished (sort_key (finishedAt env) [7, 8]) @
               map Started [9, 10] @ map Finished (sort_key (finishedAt env) [9, 10]) \<and>
             length (allVoters run)
               = (\<Sum>p\<leftarrow>[3, 4, 5, 6, 7, 8, 9, 10]. length (pageVoters env p)) \<and>
             app_voters (run_app run) = app_voters st @ allVoters run))"
proof (intro conjI impI)
  assume a: "getDocument env = Inr n \<and> 0 < c"
  then have c: "0 < c" by simp
  from processPdfLocally_runs[of env n c st] a
  obtain run where r: "processPdfLocally env c st = Some (Inr run)"
    "run_trace run = concat (map (\<lambda>b. map Started b @ map Finished (sort_key (finishedAt env) b))
                               (chunks c (drop 2 (map (\<lambda>i. i + 1) [0..<n]))))"
    "allVoters run = concat (map (\<lambda>b. concat (map (pageVoters env) (sort_key (finishedAt env) b)))
                               (chunks c (drop 2 (map (\<lambda>i. i + 1) [0..<n]))))"
    by blast
  have "startedPages (run_trace run) = drop 2 (map (\<lambda>i. i + 1) [0..<n])"
    unfolding r(2) startedPages_batches concat_chunks[OF c] ..
  moreover have "length (allVoters run)
               = (\<Sum>p\<leftarrow>drop 2 (map (\<lambda>i. i + 1) [0..<n]). length (pageVoters env p))"
    unfolding r(3) length_batches_yield concat_chunks[OF c] ..
  ultimately show "\<exists>run. processPdfLocally env c st = Some (Inr run) \<and>
             startedPages (run_trace run) = drop 2 (map (\<lambda>i. i + 1) [0..<n]) \<and>
             length (allVoters run)
               = (\<Sum>p\<leftarrow>drop 2 (map (\<lambda>i. i + 1) [0..<n]). length (pageVoters env p))"
    using r(1) by blast
next
  assume a: "getDocument env = Inr 10"
  from processPdfLocally_runs[OF a, of 2 st]
  obtain run where r: "processPdfLocally env 2 st = Some (Inr run)"
    "run_trace run = concat (map (\<lambda>b. map Started b @ map Finished (sort_key (finishedAt env) b))
                               (chunks 2 (drop 2 (map (\<lambda>i. i + 1) [0..<10]))))"
    "allVoters run = concat (map (\<lambda>b. concat (map (pageVoters env) (sort_key (finishedAt env) b)))
                               (chunks 2 (drop 2 (map (\<lambda>i. i + 1) [0..<10]))))"
    "app_voters (run_app run) = app_voters st @ allVoters run"
    by auto
  have t: "run_trace run =
               map Started [3, 4] @ map Finished (sort_key (finishedAt env) [3, 4]) @
               map Started [5, 6] @ map Finished (sort_key (finishedAt env) [5, 6]) @
               map Started [7, 8] @ map Finished (sort_key (finishedAt env) [7, 8]) @
               map Started [9, 10] @ map Finished (sort_key (finishedAt env) [9, 10])"
    unfolding r(2) queue10 chunks10 by simp
  have "length (allVoters run)
               = (\<Sum>p\<leftarrow>concat (chunks 2 (drop 2 (map (\<lambda>i. i + 1) [0..<10]))).
                     length (pageVoters env p))"
    unfolding r(3) length_batches_yield ..
  then have l: "length (allVoters run)
               = (\<Sum>p\<leftarrow>[3, 4, 5, 6, 7, 8, 9, 10]. length (pageVoters env p))"
    unfolding queue10 chunks10 by simp
  from r(1) t l r(4)
  show "\<exists>run. processPdfLocally env 2 st = Some (Inr run) \<and>
             run_trace run =
               map Started [3, 4] @ map Finished (sort_key (finishedAt env) [3, 4]) @
               map Started [5, 6] @ map Finished (sort_key (finishedAt env) [5, 6]) @
               map Started [7, 8] @ map Finished (sort_key (finishedAt env) [7, 8]) @
               map Started [9, 10] @ map Finished (sort_key (finishedAt env) [9, 10]) \<and>
             length (allVoters run)
               = (\<Sum>p\<leftarrow>[3, 4, 5, 6, 7, 8, 9, 10]. length (pageVoters env p)) \<and>
             app_voters (run_app run) = app_voters st @ allVoters run"
    by blast
qed

text \<open>
  In \<open>pdfTen\<close> the later page of each batch completes first, page 5 fails to render and
  a page \<open>p\<close> yields \<open>p\<close> records: 3 + 4 + 0 + 6 + 7 + 8 + 9 + 10 = 47.
\<close>

theorem local_fallback_batches_witness:
  "\<exists>run. processPdfLocally pdfTen 2 emptyState = Some (Inr run) \<and>
         startedPages (run_trace run) = [3, 4, 5, 6, 7, 8, 9, 10] \<and>
         run_trace run =
           [Started 3, Started 4, Finished 4, Finished 3,
            Started 5, Started 6, Finished 6, Finished 5,
            Started 7, Started 8, Finished 8, Finished 7,
            Started 9, Started 10, Finished 10, Finished 9] \<and>
         length (allVoters run) = 47 \<and> length (app_voters (run_app run)) = 47"
proof -
  have d: "getDocument pdfTen = Inr 10" by (simp add: pdfTen_def)
  then have d2: "getDocument pdfTen = Inr 10 \<and> 0 < (2::nat)" by simp
  note inst = local_fallback_batches[of pdfTen 10 2 emptyState]
  from inst[THEN conjunct1] d2
  have "\<exists>run. processPdfLocally pdfTen 2 emptyState = Some (Inr run) \<and>
             startedPages (run_trace run) = drop 2 (map (\<lambda>i. i + 1) [0..<10]) \<and>
             length (allVoters run)
               = (\<Sum>p\<leftarrow>drop 2 (map (\<lambda>i. i + 1) [0..<10]). length (pageVoters pdfTen p))"
    by (rule mp)
  then obtain run0 where r0: "processPdfLocally pdfTen 2 emptyState = Some (Inr run0)"
    "startedPages (run_trace run0) = drop 2 (map (\<lambda>i. i + 1) [0..<10])"
    by (elim exE conjE)
  from inst[THEN conjunct2] d
  have "\<exists>run. processPdfLocally pdfTen 2 emptyState = Some (Inr run) \<and>
             run_trace run =
               map Started [3, 4] @ map Finished (sort_key (finishedAt pdfTen) [3, 4]) @
               map Started [5, 6] @ map Finished (sort_key (finishedAt pdfTen) [5, 6]) @
               map Started [7, 8] @ map Finished (sort_key (finishedAt pdfTen) [7, 8]) @
               map Started [9, 10] @ map Finished (sort_key (finishedAt pdfTen) [9, 10]) \<and>
             length (allVoters run)
               = (\<Sum>p\<leftarrow>[3, 4, 5, 6, 7, 8, 9, 10]. length (pageVoters pdfTen p)) \<and>
             app_voters (run_app run) = app_voters emptyState @ allVoters run"
    by (rule mp)
  then obtain run where r: "processPdfLocally pdfTen 2 emptyState = Some (Inr run)"
    "run_trace run =
               map Started [3, 4] @ map Finished (sort_key (finishedAt pdfTen) [3, 4]) @
               map Started [5, 6] @ map Finished (sort_key (finishedAt pdfTen) [5, 6]) @
               map Started [7, 8] @ map Finished (sort_key (finishedAt pdfTen) [7, 8]) @
               map Started [9, 10] @ map Finished (sort_key (finishedAt pdfTen) [9, 10])"
    "length (allVoters run)
               = (\<Sum>p\<leftarrow>[3, 4, 5, 6, 7, 8, 9, 10]. length (pageVoters pdfTen p))"
    "app_voters (run_app run) = app_voters emptyState @ allVoters run"
    by (elim exE conjE)
  from r0(1) r(1) have "run0 = run" by simp
  with r0(2) have s: "startedPages (run_trace run) = [3, 4, 5, 6, 7, 8, 9, 10]"
    unfolding queue10 by simp
  have f: "finishedAt pdfTen = (\<lambda>p. 100 - p)" by (simp add: pdfTen_def)
  have t: "run_trace run =
           [Started 3, Started 4, Finished 4, Finished 3,
            Started 5, Started 6, Finished 6, Finished 5,
            Started 7, Started 8, Finished 8, Finished 7,
            Started 9, Started 10, Finished 10, Finished 9]"
    unfolding r(2) f by simp
  have l: "length (allVoters run) = 47"
    unfolding r(3) by (simp add: pageVoters_def pdfTen_def)
  have "length (app_voters (run_app run)) = 47"
    unfolding r(4) using l by (simp add: emptyState_def)
  with r(1) s t l show ?thesis by blast
qed


subsection \<open>The tabular format\<close>




text \<open>
  Claim C7. A text with fewer than two non-blank lines, so a file with only a header line,
  is rejected with the error \<open>Data appears to be empty or missing headers.\<close> and the
  state is left as it was. In every case the import either throws and leaves the state as
  it was, or it stores and returns the whole list of records parsed from the data lines,
  which then is not empty.
\<close>

theorem import_all_or_nothing:
  "(length (csvLines text) < 2 \<longrightarrow>
      processCSVText text source st =
        (st, Inl (Error ''Data appears to be empty or missing headers.''))) \<and>
   ((\<exists>e. processCSVText text source st = (st, Inl e)) \<or>
    (\<exists>vs delimiter. vs \<noteq> [] \<and> vs = loadVoters delimiter (tl (csvLines text)) \<and>
        processCSVText text source st = (loadedState source vs st, Inr vs)))"
proof (rule conjI)
  show "length (csvLines text) < 2 \<longrightarrow>
      processCSVText text source st =
        (st, Inl (Error ''Data appears to be empty or missing headers.''))"
    by (simp add: processCSVText_def)
next
  let ?d = "if of_char CHR '';'' \<in> set (hd (csvLines text))
            then of_char CHR '';'' else (of_char CHR '','' :: nat)"
  show "(\<exists>e. processCSVText text source st = (st, Inl e)) \<or>
    (\<exists>vs delimiter. vs \<noteq> [] \<and> vs = loadVoters delimiter (tl (csvLines text)) \<and>
        processCSVText text source st = (loadedState source vs st, Inr vs))"
  proof (cases "length (csvLines text) < 2 \<or> loadVoters ?d (tl (csvLines text)) = []")
    case True
    then have "\<exists>e. processCSVText text source st = (st, Inl e)"
      by (auto simp: processCSVText_def Let_def)
    then show ?thesis ..
  next
    case False
    then have "processCSVText text source st =
        (loadedState source (loadVoters ?d (tl (csvLines text))) st,
         Inr (loadVoters ?d (tl (csvLines text))))"
      by (simp add: processCSVText_def Let_def loadedState_def)
    with False show ?thesis by blast
  qed
qed

text \<open>The export of an empty collection is a header line only; importing it is rejected.\<close>

theorem import_all_or_nothing_witness:
  "processCSVText (generateCSVContent []) FILE emptyState =
     (emptyState, Inl (Error ''Data appears to be empty or missing headers.''))"
proof -
  have "csvLines (generateCSVContent []) = [joinWith (str '','') (map str headers)]"
    using csvLines_export[of "[]"] by simp
  then have "length (csvLines (generateCSVContent [])) < 2" by simp
  with import_all_or_nothing[of "generateCSVContent []" FILE emptyState, THEN conjunct1]
  show ?thesis by (rule mp)
qed


end
